theory Spec2Isabelle
  imports Complex_Main
begin

section \<open>Python values\<close>

text \<open>
  A Python \<open>str\<close> is a sequence of Unicode code points; it is modelled as a list of
  natural numbers, so that \<open>len\<close>, indexing and equality count code points as Python does.
  An ASCII literal of the script is written \<open>str ''...''\<close>.
\<close>

type_synonym pystr = "nat list"

definition str :: "string \<Rightarrow> pystr" where
  "str s = map of_char s"

text \<open>
  The exceptions that can travel through the script. All of them are subclasses of
  Python's \<open>Exception\<close>, so every \<open>except Exception\<close> clause catches each of them.
\<close>

datatype exn =
    NameError
  | ValueError
  | ZeroDivisionError
  | IndexError
  | RequestException
  | ParseError
  | OSError

subsection \<open>\<open>str.split()\<close>, \<open>re.findall\<close> and \<open>str.split('\n\n')\<close>\<close>

text \<open>
  \<open>str.split()\<close> without an argument splits at runs of whitespace and yields no empty
  token. The whitespace code points are those of CPython's \<open>str.isspace\<close>:
  U+0009..U+000D, U+001C..U+0020, U+0085, U+00A0, U+1680, U+2000..U+200A, U+2028, U+2029,
  U+202F, U+205F and U+3000.
\<close>

definition py_isspace :: "nat \<Rightarrow> bool" where
  "py_isspace c \<longleftrightarrow>
     (9 \<le> c \<and> c \<le> 13) \<or> (28 \<le> c \<and> c \<le> 32) \<or> c = 133 \<or> c = 160 \<or> c = 5760 \<or>
     (8192 \<le> c \<and> c \<le> 8202) \<or> c = 8232 \<or> c = 8233 \<or> c = 8239 \<or> c = 8287 \<or> c = 12288"

text \<open>
  The maximal runs of elements that satisfy \<open>P\<close>, from left to right. The accumulator
  \<open>cur\<close> holds the run being read, reversed. This is what \<open>str.split()\<close> computes for the
  non-whitespace characters and what \<open>re.findall\<close> computes for a pattern \<open>[class]+\<close>.
\<close>

fun runs_acc :: "('a \<Rightarrow> bool) \<Rightarrow> 'a list \<Rightarrow> 'a list \<Rightarrow> 'a list list" where
  "runs_acc P cur [] = (if cur = [] then [] else [rev cur])"
| "runs_acc P cur (x # xs) =
     (if P x then runs_acc P (x # cur) xs
      else (if cur = [] then [] else [rev cur]) @ runs_acc P [] xs)"

definition runs :: "('a \<Rightarrow> bool) \<Rightarrow> 'a list \<Rightarrow> 'a list list" where
  "runs P xs = runs_acc P [] xs"

definition str_split :: "pystr \<Rightarrow> pystr list" where
  "str_split text = runs (\<lambda>c. \<not> py_isspace c) text"

text \<open>\<open>re.findall(r'[.!?]+', text)\<close>: the characters U+002E, U+0021 and U+003F.\<close>

definition re_findall_punct :: "pystr \<Rightarrow> pystr list" where
  "re_findall_punct text = runs (\<lambda>c. c = 46 \<or> c = 33 \<or> c = 63) text"

text \<open>
  \<open>text.split('\n\n')\<close>: the pieces between the non-overlapping occurrences of two
  line feeds, found from left to right; always at least one piece.
\<close>

fun split_nn_acc :: "pystr \<Rightarrow> pystr \<Rightarrow> pystr list" where
  "split_nn_acc cur [] = [rev cur]"
| "split_nn_acc cur [a] = [rev (a # cur)]"
| "split_nn_acc cur (a # b # rest) =
     (if a = 10 \<and> b = 10 then rev cur # split_nn_acc [] rest
      else split_nn_acc (a # cur) (b # rest))"

definition str_split_nn :: "pystr \<Rightarrow> pystr list" where
  "str_split_nn text = split_nn_acc [] text"

subsection \<open>The Unicode tables and the language detector\<close>

text \<open>
  \<open>str.lower\<close>, \<open>str.isupper\<close> and the class \<open>\d\<close> of \<open>re\<close> read the Unicode character
  database of the interpreter. The script does not contain these tables, so they are
  parameters of the model: \<open>str_lower\<close> is \<open>text.lower()\<close> on a whole string (lowering
  is not character-wise in Unicode), \<open>str_isupper\<close> is \<open>isupper()\<close> and \<open>isdecimal\<close>
  says which code points \<open>\d\<close> matches.
\<close>

record ucd =
  str_lower :: "pystr \<Rightarrow> pystr"
  str_isupper :: "pystr \<Rightarrow> bool"
  isdecimal :: "nat \<Rightarrow> bool"

text \<open>
  The tables on the code points below 256 (Basic Latin and Latin-1 Supplement), where
  they are: upper-case letters are A..Z, U+00C0..U+00D6 and U+00D8..U+00DE, each lowered
  by adding 32; the decimal digits are 0..9. Code points from 256 on are outside this
  table and are left unchanged, uncased and non-decimal by it.
\<close>

definition latin1_isupper_char :: "nat \<Rightarrow> bool" where
  "latin1_isupper_char c \<longleftrightarrow>
     (65 \<le> c \<and> c \<le> 90) \<or> (192 \<le> c \<and> c \<le> 214) \<or> (216 \<le> c \<and> c \<le> 222)"

definition latin1_islower_char :: "nat \<Rightarrow> bool" where
  "latin1_islower_char c \<longleftrightarrow>
     (97 \<le> c \<and> c \<le> 122) \<or> c = 170 \<or> c = 181 \<or> c = 186 \<or>
     (223 \<le> c \<and> c \<le> 246) \<or> (248 \<le> c \<and> c \<le> 255)"

definition latin1 :: ucd where
  "latin1 = \<lparr>
     str_lower = map (\<lambda>c. if latin1_isupper_char c then c + 32 else c),
     str_isupper = (\<lambda>s. list_ex latin1_isupper_char s \<and>
                          list_all (\<lambda>c. \<not> latin1_islower_char c) s),
     isdecimal = (\<lambda>c. 48 \<le> c \<and> c \<le> 57) \<rparr>"

text \<open>\<open>re.findall(r'\d+', text)\<close>.\<close>

definition re_findall_digits :: "ucd \<Rightarrow> pystr \<Rightarrow> pystr list" where
  "re_findall_digits u text = runs (isdecimal u) text"

text \<open>
  \<open>langdetect.detect\<close> is an external collaborator: it returns a language code or raises
  \<open>LangDetectException\<close>, which is \<open>None\<close> here.
\<close>

type_synonym detector = "pystr \<Rightarrow> pystr option"

section \<open>The quality filter\<close>

text \<open>
  \<open>extract_probable_entities\<close>. \<open>word[0]\<close> raises \<open>IndexError\<close> on an empty word and
  is evaluated before \<open>len(word) > 1\<close>; the comprehension stops at the first raise.
  The \<open>lru_cache\<close> around it memoises a function of the text alone and is not visible in
  its results.
\<close>

definition extract_probable_entities :: "ucd \<Rightarrow> pystr \<Rightarrow> exn + pystr set" where
  "extract_probable_entities u text =
     (let words = str_split text in
      if [] \<in> set words then Inl IndexError
      else Inr (set (map (str_lower u)
                  (filter (\<lambda>word. str_isupper u [hd word] \<and> length word > 1) words))))"

definition common_en_words :: "pystr set" where
  "common_en_words =
     set (str_split (str ''the and of to in is for on that by a are you we with as at from have''))"

definition common_cy_words :: "pystr set" where
  "common_cy_words =
     set (str_split (str ''y a i yn o ar mae am gyda bod gan ei yr yng chi yw''))"

text \<open>
  The \<open>try\<close> block of the language detection: \<open>True\<close> when it executes \<open>return False\<close>.
  A \<open>LangDetectException\<close> from either call leaves the block without a decision.
\<close>

definition detection_rejects :: "detector \<Rightarrow> pystr \<Rightarrow> pystr \<Rightarrow> bool" where
  "detection_rejects detect en_text cy_text =
     (case detect en_text of
        None \<Rightarrow> False
      | Some en_detected \<Rightarrow>
          (case detect cy_text of
             None \<Rightarrow> False
           | Some cy_detected \<Rightarrow> en_detected \<noteq> str ''en'' \<and> cy_detected \<noteq> str ''cy''))"

text \<open>
  \<open>quality_check\<close>. The quotient \<open>min / max\<close> of two Python integers is a float and
  raises \<open>ZeroDivisionError\<close> when the divisor is zero. The model computes the quotient
  exactly, as a rational, and compares it with 1/2 and 1/5. Python's true division of
  integers is correctly rounded, so its comparisons with the floats \<open>0.5\<close> and \<open>0.2\<close>
  agree with the exact ones for all token counts below \<open>2^50\<close>.
\<close>

definition quality_check :: "ucd \<Rightarrow> detector \<Rightarrow> pystr \<Rightarrow> pystr \<Rightarrow> exn + bool" where
  "quality_check u detect en_text cy_text =
     (let en_length = length (str_split en_text);
          cy_length = length (str_split cy_text)
      in
      if max en_length cy_length = 0 then Inl ZeroDivisionError
      else
      let length_ratio = rat_of_nat (min en_length cy_length) / rat_of_nat (max en_length cy_length)
      in
      if en_length < 10 \<and> cy_length < 10 \<and> length_ratio > 1 / 2 then Inr True
      else if length_ratio < 1 / 5 then Inr False
      else
      let en_words = set (str_split (str_lower u en_text));
          cy_words = set (str_split (str_lower u cy_text));
          en_common_count = card (en_words \<inter> common_en_words);
          cy_common_count = card (cy_words \<inter> common_cy_words)
      in
      if en_common_count = 0 \<or> cy_common_count = 0 then Inr False
      else if detection_rejects detect en_text cy_text then Inr False
      else
      (case extract_probable_entities u en_text of
         Inl e \<Rightarrow> Inl e
       | Inr en_entities \<Rightarrow>
      (case extract_probable_entities u cy_text of
         Inl e \<Rightarrow> Inl e
       | Inr cy_entities \<Rightarrow>
      let en_numbers = set (re_findall_digits u en_text);
          cy_numbers = set (re_findall_digits u cy_text);
          common_elements = (en_entities \<inter> cy_entities) \<union> (en_numbers \<inter> cy_numbers)
      in
      if card common_elements > 0 then Inr True
      else
      let en_sentence_count = length (re_findall_punct en_text);
          cy_sentence_count = length (re_findall_punct cy_text)
      in
      if \<bar>int en_sentence_count - int cy_sentence_count\<bar> \<le> 1 then Inr True
      else
      let en_paragraph_count = length (str_split_nn en_text);
          cy_paragraph_count = length (str_split_nn cy_text)
      in
      if en_paragraph_count = cy_paragraph_count then Inr True
      else Inr False)))"

section \<open>The collaborators of the script\<close>

text \<open>
  Everything the script reaches outside itself is a field of the environment:
  \<^item> \<open>REQUEST_DELAY\<close>: the binding of the global name that \<open>scrape_page\<close> reads.
    \<open>script.py\<close> never assigns it, which is \<open>None\<close>; \<open>Some d\<close> is the module with
    \<open>REQUEST_DELAY = d\<close> added to its configuration;
  \<^item> \<open>session_get url\<close>: \<open>session.get(url).content\<close>, after the retries of the adapter;
  \<^item> \<open>ET_locs content\<close>: \<open>ET.fromstring(content)\<close> followed by the \<open>text\<close> of every
    \<open>loc\<close> element of the sitemap namespace, in document order;
  \<^item> \<open>BeautifulSoup content\<close>: the parsed document;
  \<^item> \<open>find_language_link soup\<close>:
    \<open>soup.find('a', class_='language-link', string='Cymraeg')\<close>, the first such anchor,
    given by its attribute dictionary;
  \<^item> \<open>urljoin\<close>: \<open>urllib.parse.urljoin\<close>;
  \<^item> \<open>find_all_articles soup\<close>: \<open>str(article)\<close> for every
    \<open>div\<close> of class \<open>announcement-item__article\<close>, in document order;
  \<^item> \<open>md html\<close>: \<open>markdownify(html, strip=['a'])\<close>;
  \<^item> \<open>tables\<close> and \<open>detect\<close>: the Unicode tables and \<open>langdetect.detect\<close>;
  \<^item> \<open>open_output\<close>: \<open>os.makedirs(OUTPUT_DIR, exist_ok=True)\<close> followed by
    \<open>open(..., 'w', encoding='utf-8')\<close>; \<open>Some e\<close> when one of them raises.
  The environment is a function of its arguments: fetching a URL twice gives the same
  answer.
\<close>

type_synonym bytes = "nat list"

record 's env =
  REQUEST_DELAY :: "rat option"
  session_get :: "pystr \<Rightarrow> exn + bytes"
  ET_locs :: "bytes \<Rightarrow> exn + pystr list"
  BeautifulSoup :: "bytes \<Rightarrow> exn + 's"
  find_language_link :: "'s \<Rightarrow> (pystr \<rightharpoonup> pystr) option"
  urljoin :: "pystr \<Rightarrow> pystr \<Rightarrow> exn + pystr"
  find_all_articles :: "'s \<Rightarrow> pystr list"
  md :: "pystr \<Rightarrow> exn + pystr"
  tables :: ucd
  detect :: detector
  open_output :: "exn option"

text \<open>
  \<open>try: body except Exception: return fallback\<close>. Every constructor of \<open>exn\<close> is a
  subclass of \<open>Exception\<close>, so the handler takes each of them.
\<close>

definition except_Exception :: "exn + 'a \<Rightarrow> 'a \<Rightarrow> exn + 'a" where
  "except_Exception body fallback = (case body of Inl e \<Rightarrow> Inr fallback | Inr v \<Rightarrow> Inr v)"

section \<open>Sitemaps\<close>

text \<open>
  \<open>functools.lru_cache(maxsize)\<close> around a function of one argument: the entries are
  kept most recently used first; a hit moves its entry to the front; a miss calls the
  function, stores the result at the front and drops the least recently used entry
  when the cache is full. A call that raises stores nothing.
\<close>

type_synonym 'v lru = "(pystr \<times> 'v) list"

definition lru_cache :: "nat \<Rightarrow> (pystr \<Rightarrow> exn + 'v) \<Rightarrow> 'v lru \<Rightarrow> pystr \<Rightarrow> (exn + 'v) \<times> 'v lru" where
  "lru_cache maxsize f cache key =
     (case map_of cache key of
        Some v \<Rightarrow> (Inr v, (key, v) # filter (\<lambda>kv. fst kv \<noteq> key) cache)
      | None \<Rightarrow>
          (case f key of
             Inl e \<Rightarrow> (Inl e, cache)
           | Inr v \<Rightarrow> (Inr v, take maxsize ((key, v) # cache))))"

text \<open>The body of \<open>get_urls\<close>, and \<open>get_urls\<close> with its cache of 1000 entries.\<close>

definition get_urls_body :: "'s env \<Rightarrow> pystr \<Rightarrow> exn + pystr list" where
  "get_urls_body w sitemap_url =
     (case session_get w sitemap_url of
        Inl e \<Rightarrow> Inl e
      | Inr content \<Rightarrow> ET_locs w content)"

definition get_urls ::
  "'s env \<Rightarrow> pystr list lru \<Rightarrow> pystr \<Rightarrow> (exn + pystr list) \<times> pystr list lru" where
  "get_urls w cache sitemap_url = lru_cache 1000 (get_urls_body w) cache sitemap_url"

text \<open>The invariant of the cache: every entry is a result of the body.\<close>

definition cache_ok :: "'s env \<Rightarrow> pystr list lru \<Rightarrow> bool" where
  "cache_ok w cache \<longleftrightarrow> list_all (\<lambda>kv. get_urls_body w (fst kv) = Inr (snd kv)) cache"

section \<open>Language pairs\<close>

definition get_language_switch_url :: "'s env \<Rightarrow> 's \<Rightarrow> pystr \<Rightarrow> exn + pystr option" where
  "get_language_switch_url w soup current_url =
     (case find_language_link w soup of
        None \<Rightarrow> Inr None
      | Some attrs \<Rightarrow>
          (case attrs (str ''href'') of
             None \<Rightarrow> Inr None
           | Some href \<Rightarrow>
               (case urljoin w current_url href of
                  Inl e \<Rightarrow> Inl e
                | Inr welsh_url \<Rightarrow> Inr (Some welsh_url))))"

definition find_language_pair :: "'s env \<Rightarrow> pystr \<Rightarrow> exn + (pystr \<times> pystr) option" where
  "find_language_pair w url =
     except_Exception
       (case session_get w url of
          Inl e \<Rightarrow> Inl e
        | Inr content \<Rightarrow>
            (case BeautifulSoup w content of
               Inl e \<Rightarrow> Inl e
             | Inr soup \<Rightarrow>
                 (case get_language_switch_url w soup url of
                    Inl e \<Rightarrow> Inl e
                  | Inr None \<Rightarrow> Inr None
                  | Inr (Some welsh_url) \<Rightarrow>
                      if welsh_url \<noteq> [] then Inr (Some (url, welsh_url)) else Inr None)))
       None"

section \<open>Scraping\<close>

text \<open>A list comprehension over a call that can raise: it stops at the first raise.\<close>

fun comprehension :: "('a \<Rightarrow> exn + 'b) \<Rightarrow> 'a list \<Rightarrow> exn + 'b list" where
  "comprehension f [] = Inr []"
| "comprehension f (x # xs) =
     (case f x of
        Inl e \<Rightarrow> Inl e
      | Inr y \<Rightarrow> (case comprehension f xs of Inl e \<Rightarrow> Inl e | Inr ys \<Rightarrow> Inr (y # ys)))"

definition get_announcement_articles :: "'s env \<Rightarrow> 's \<Rightarrow> exn + pystr list" where
  "get_announcement_articles w soup = comprehension (md w) (find_all_articles w soup)"

text \<open>
  \<open>time.sleep(REQUEST_DELAY)\<close> is the first statement inside the \<open>try\<close>: reading an
  unbound global raises \<open>NameError\<close>, and \<open>time.sleep\<close> raises \<open>ValueError\<close> on a
  negative length.
\<close>

definition scrape_page_try :: "'s env \<Rightarrow> pystr \<Rightarrow> exn + pystr list" where
  "scrape_page_try w url =
     (case REQUEST_DELAY w of
        None \<Rightarrow> Inl NameError
      | Some d \<Rightarrow>
          if d < 0 then Inl ValueError
          else
            (case session_get w url of
               Inl e \<Rightarrow> Inl e
             | Inr content \<Rightarrow>
                 (case BeautifulSoup w content of
                    Inl e \<Rightarrow> Inl e
                  | Inr soup \<Rightarrow> get_announcement_articles w soup)))"

definition scrape_page :: "'s env \<Rightarrow> pystr \<Rightarrow> exn + pystr list" where
  "scrape_page w url = except_Exception (scrape_page_try w url) []"

text \<open>The loop of \<open>process_url_pair\<close> over \<open>zip(en_articles, cy_articles)\<close>.\<close>

fun check_pairs ::
  "'s env \<Rightarrow> pystr \<Rightarrow> (pystr \<times> pystr \<times> pystr) list \<Rightarrow> (pystr \<times> pystr) list \<Rightarrow>
   exn + (pystr \<times> pystr \<times> pystr) list" where
  "check_pairs w en_url valid_pairs [] = Inr valid_pairs"
| "check_pairs w en_url valid_pairs ((en, cy) # rest) =
     (case quality_check (tables w) (detect w) en cy of
        Inl e \<Rightarrow> Inl e
      | Inr ok \<Rightarrow>
          if ok then check_pairs w en_url (valid_pairs @ [(en, cy, en_url)]) rest
          else check_pairs w en_url valid_pairs rest)"

definition process_url_pair ::
  "'s env \<Rightarrow> pystr \<Rightarrow> pystr \<Rightarrow> exn + (pystr \<times> pystr \<times> pystr) list" where
  "process_url_pair w en_url cy_url =
     (case scrape_page w en_url of
        Inl e \<Rightarrow> Inl e
      | Inr en_articles \<Rightarrow>
          (case scrape_page w cy_url of
             Inl e \<Rightarrow> Inl e
           | Inr cy_articles \<Rightarrow> check_pairs w en_url [] (zip en_articles cy_articles)))"

section \<open>The output records\<close>

text \<open>
  \<open>json.dump(obj, f, ensure_ascii=False)\<close> on a dictionary of three strings. With
  \<open>ensure_ascii=False\<close> the encoder of the standard library replaces only the
  backslash, the double quote and the code points below U+0020: by \<open>\\\<close>, \<open>\"\<close>,
  \<open>\b\<close>, \<open>\f\<close>, \<open>\n\<close>, \<open>\r\<close>, \<open>\t\<close>, and \<open>\u00XX\<close> with lower-case hexadecimal
  digits for the other control characters. Keys and values go through the same string
  encoder; the separators are \<open>', '\<close> and \<open>': '\<close>. The model ends at the text
  handed to the file object, which encodes it as UTF-8.
\<close>

definition hex_digit :: "nat \<Rightarrow> nat" where
  "hex_digit d = (if d < 10 then 48 + d else 87 + d)"

definition encode_char :: "nat \<Rightarrow> pystr" where
  "encode_char c =
     (if c = 92 then [92, 92]
      else if c = 34 then [92, 34]
      else if c = 8 then [92, 98]
      else if c = 12 then [92, 102]
      else if c = 10 then [92, 110]
      else if c = 13 then [92, 114]
      else if c = 9 then [92, 116]
      else if c < 32 then [92, 117, 48, 48, hex_digit (c div 16), hex_digit (c mod 16)]
      else [c])"

definition encode_basestring :: "pystr \<Rightarrow> pystr" where
  "encode_basestring s = [34] @ concat (map encode_char s) @ [34]"

definition json_dump :: "pystr \<Rightarrow> pystr \<Rightarrow> pystr \<Rightarrow> pystr" where
  "json_dump en cy url =
     str ''{'' @ encode_basestring (str ''en'') @ str '': '' @ encode_basestring en @
     str '', '' @ encode_basestring (str ''cy'') @ str '': '' @ encode_basestring cy @
     str '', '' @ encode_basestring (str ''url'') @ str '': '' @ encode_basestring url @
     str ''}''"

text \<open>
  The inner loop of \<open>main\<close> over the results of one unit: \<open>json.dump\<close> and
  \<open>f.write('\n')\<close> for each accepted pair. \<open>f\<close> is the text written so far.
\<close>

fun write_results :: "pystr \<Rightarrow> (pystr \<times> pystr \<times> pystr) list \<Rightarrow> pystr" where
  "write_results f [] = f"
| "write_results f ((en, cy, url) # results) =
     write_results (f @ json_dump en cy url @ [10]) results"

subsection \<open>Reading a record back\<close>

text \<open>
  A reader for the lines of the output file, following the JSON grammar (RFC 8259) for
  objects whose values are strings: white space is U+0020, U+0009, U+000A and U+000D; a
  string ends at the first unescaped double quote, must not contain a raw control
  character, and has the escapes \<open>\"\<close>, \<open>\\\<close>, \<open>\/\<close>, \<open>\b\<close>, \<open>\f\<close>, \<open>\n\<close>, \<open>\r\<close>,
  \<open>\t\<close> and \<open>\uXXXX\<close> (one code point each; the script writes no surrogate
  escapes). The result is the list of members in the order of the text. The loop over
  the members runs on a fuel of the length of the text; that it suffices for the
  records of the script is part of the round-trip lemma below.
\<close>

definition hex_val :: "nat \<Rightarrow> nat option" where
  "hex_val c =
     (if 48 \<le> c \<and> c \<le> 57 then Some (c - 48)
      else if 97 \<le> c \<and> c \<le> 102 then Some (c - 87)
      else if 65 \<le> c \<and> c \<le> 70 then Some (c - 55)
      else None)"

definition unescape :: "nat \<Rightarrow> nat option" where
  "unescape e =
     (if e = 34 then Some 34
      else if e = 92 then Some 92
      else if e = 47 then Some 47
      else if e = 98 then Some 8
      else if e = 102 then Some 12
      else if e = 110 then Some 10
      else if e = 114 then Some 13
      else if e = 116 then Some 9
      else None)"

fun scanstring :: "pystr \<Rightarrow> pystr \<Rightarrow> (pystr \<times> pystr) option" where
  "scanstring acc [] = None"
| "scanstring acc [c] = (if c = 34 then Some (rev acc, []) else None)"
| "scanstring acc (c # e # r) =
     (if c = 34 then Some (rev acc, e # r)
      else if c = 92 then
        (if e = 117 then
           (case r of
              h1 # h2 # h3 # h4 # r' \<Rightarrow>
                (case (hex_val h1, hex_val h2, hex_val h3, hex_val h4) of
                   (Some a, Some b, Some x, Some d) \<Rightarrow>
                     scanstring ((((a * 16 + b) * 16 + x) * 16 + d) # acc) r'
                 | _ \<Rightarrow> None)
            | _ \<Rightarrow> None)
         else (case unescape e of None \<Rightarrow> None | Some x \<Rightarrow> scanstring (x # acc) r))
      else if c < 32 then None
      else scanstring (c # acc) (e # r))"

definition skip_ws :: "pystr \<Rightarrow> pystr" where
  "skip_ws s = dropWhile (\<lambda>c. c = 32 \<or> c = 9 \<or> c = 10 \<or> c = 13) s"

definition read_string :: "pystr \<Rightarrow> (pystr \<times> pystr) option" where
  "read_string s =
     (case skip_ws s of
        [] \<Rightarrow> None
      | c # rest \<Rightarrow> if c = 34 then scanstring [] rest else None)"

definition read_member :: "pystr \<Rightarrow> ((pystr \<times> pystr) \<times> pystr) option" where
  "read_member s =
     (case read_string s of
        None \<Rightarrow> None
      | Some (k, r1) \<Rightarrow>
          (case skip_ws r1 of
             [] \<Rightarrow> None
           | c # r2 \<Rightarrow>
               if c = 58 then
                 (case read_string r2 of
                    None \<Rightarrow> None
                  | Some (v, r3) \<Rightarrow> Some ((k, v), skip_ws r3))
               else None))"

fun read_members :: "nat \<Rightarrow> pystr \<Rightarrow> (pystr \<times> pystr) list option" where
  "read_members 0 s = None"
| "read_members (Suc n) s =
     (case read_member s of
        None \<Rightarrow> None
      | Some (kv, r) \<Rightarrow>
          (case r of
             [] \<Rightarrow> None
           | c # r' \<Rightarrow>
               if c = 125 then (if skip_ws r' = [] then Some [kv] else None)
               else if c = 44 then
                 (case read_members n r' of None \<Rightarrow> None | Some kvs \<Rightarrow> Some (kv # kvs))
               else None))"

definition json_loads_object :: "pystr \<Rightarrow> (pystr \<times> pystr) list option" where
  "json_loads_object s =
     (case skip_ws s of
        [] \<Rightarrow> None
      | c # r \<Rightarrow>
          if c = 123 then
            (case skip_ws r of
               [] \<Rightarrow> None
             | c' # r' \<Rightarrow>
                 if c' = 125 then (if skip_ws r' = [] then Some [] else None)
                 else read_members (length s) r)
          else None)"

text \<open>The lines of a text: the pieces that end in a line feed, and a last unfinished one.\<close>

fun lines_acc :: "pystr \<Rightarrow> pystr \<Rightarrow> pystr list" where
  "lines_acc cur [] = (if cur = [] then [] else [rev cur])"
| "lines_acc cur (c # cs) =
     (if c = 10 then rev cur # lines_acc [] cs else lines_acc (c # cur) cs)"

definition file_lines :: "pystr \<Rightarrow> pystr list" where
  "file_lines f = lines_acc [] f"

section \<open>The pipeline\<close>

text \<open>
  \<open>concurrent.futures.as_completed\<close> yields the futures in the order in which they
  finish, which the script does not control. The order is a parameter: a schedule is a
  list of choices, each picking one of the futures that are still pending; when the
  choices run out the rest finishes in the order of submission. Every order of
  completion is the result of some schedule.
\<close>

fun as_completed :: "nat list \<Rightarrow> 'a list \<Rightarrow> 'a list" where
  "as_completed sched [] = []"
| "as_completed [] (x # xs) = x # xs"
| "as_completed (c # sched) (x # xs) =
     (let i = c mod length (x # xs)
      in (x # xs) ! i # as_completed sched (take i (x # xs) @ drop (Suc i) (x # xs)))"

definition root_sitemap :: pystr where
  "root_sitemap = str ''https://www.gov.wales/sitemap.xml''"

text \<open>The loop of \<open>main\<close> over the child sitemaps; any raise leaves the loop.\<close>

fun fetch_sitemaps ::
  "'s env \<Rightarrow> pystr list lru \<Rightarrow> pystr list \<Rightarrow> pystr list \<Rightarrow> (exn + pystr list) \<times> pystr list lru" where
  "fetch_sitemaps w cache all_page_urls [] = (Inr all_page_urls, cache)"
| "fetch_sitemaps w cache all_page_urls (sitemap_url # rest) =
     (case get_urls w cache sitemap_url of
        (Inl e, cache') \<Rightarrow> (Inl e, cache')
      | (Inr urls, cache') \<Rightarrow> fetch_sitemaps w cache' (all_page_urls @ urls) rest)"

text \<open>
  The first lines of \<open>main\<close>, up to \<open>all_page_urls\<close>: the root sitemap, then its
  children. The cache of \<open>get_urls\<close> is empty when the script starts.
\<close>

definition enumerate_pages :: "'s env \<Rightarrow> exn + pystr list" where
  "enumerate_pages w =
     (case get_urls w [] root_sitemap of
        (Inl e, cache) \<Rightarrow> Inl e
      | (Inr sitemap_urls, cache) \<Rightarrow> fst (fetch_sitemaps w cache [] sitemap_urls))"

text \<open>
  Phase 1: the loop over the finished futures of \<open>find_language_pair\<close>.
  \<open>future.result()\<close> raises what the call raised.
\<close>

fun collect_pairs ::
  "'s env \<Rightarrow> (pystr \<times> pystr) list \<Rightarrow> pystr list \<Rightarrow> exn + (pystr \<times> pystr) list" where
  "collect_pairs w url_pairs [] = Inr url_pairs"
| "collect_pairs w url_pairs (url # rest) =
     (case find_language_pair w url of
        Inl e \<Rightarrow> Inl e
      | Inr None \<Rightarrow> collect_pairs w url_pairs rest
      | Inr (Some pair) \<Rightarrow> collect_pairs w (url_pairs @ [pair]) rest)"

text \<open>
  Phase 2: the loop over the finished futures of \<open>process_url_pair\<close>. A raise from
  \<open>future.result()\<close> leaves the loop with what has been written so far.
\<close>

fun write_completed :: "'s env \<Rightarrow> pystr \<Rightarrow> (pystr \<times> pystr) list \<Rightarrow> pystr \<times> exn option" where
  "write_completed w f [] = (f, None)"
| "write_completed w f ((en_url, cy_url) # rest) =
     (case process_url_pair w en_url cy_url of
        Inl e \<Rightarrow> (f, Some e)
      | Inr results \<Rightarrow> write_completed w (write_results f results) rest)"

text \<open>
  What a run of \<open>main\<close> leaves behind: \<open>written\<close> is the text written through \<open>f\<close>
  (\<open>None\<close> when the output file was never opened), \<open>units\<close> the calls of
  \<open>process_url_pair\<close> submitted to the executor of Phase 2, and \<open>logged\<close> the exception
  that reached the handler of \<open>main\<close>.
\<close>

record run =
  written :: "pystr option"
  units :: "(pystr \<times> pystr) list"
  logged :: "exn option"

definition main :: "'s env \<Rightarrow> nat list \<Rightarrow> nat list \<Rightarrow> run" where
  "main w sched1 sched2 =
     (case enumerate_pages w of
        Inl e \<Rightarrow> \<lparr>written = None, units = [], logged = Some e\<rparr>
      | Inr all_page_urls \<Rightarrow>
          (case collect_pairs w [] (as_completed sched1 all_page_urls) of
             Inl e \<Rightarrow> \<lparr>written = None, units = [], logged = Some e\<rparr>
           | Inr url_pairs \<Rightarrow>
               (case open_output w of
                  Some e \<Rightarrow> \<lparr>written = None, units = [], logged = Some e\<rparr>
                | None \<Rightarrow>
                    (case write_completed w [] (as_completed sched2 url_pairs) of
                       (f, err) \<Rightarrow> \<lparr>written = Some f, units = url_pairs, logged = err\<rparr>))))"

text \<open>
  The output file after the run, when it held \<open>prior\<close> before (\<open>None\<close>: no such file):
  opening with mode \<open>'w'\<close> creates or truncates it.
\<close>

definition output_file :: "pystr option \<Rightarrow> run \<Rightarrow> pystr option" where
  "output_file prior r = (case written r of None \<Rightarrow> prior | Some f \<Rightarrow> Some f)"

section \<open>A small site\<close>

text \<open>
  An environment for the concrete instances below. The content of a URL is the URL
  itself and a document is its content, so the collaborators are decided by the URL.
  The root sitemap lists the child sitemaps \<open>children\<close>. Sitemap 1 lists the English
  news page, which links to its Welsh version, and a page without such a link;
  sitemap 2 is not well-formed XML; sitemap 3 lists a page without a link, a page that
  cannot be fetched and a page that cannot be parsed. The news pages carry one article
  each; \<open>md\<close> leaves the articles as they are.
\<close>

definition sitemap1 :: pystr where
  "sitemap1 = str ''https://www.gov.wales/sitemap.xml?page=1''"

definition sitemap2 :: pystr where
  "sitemap2 = str ''https://www.gov.wales/sitemap.xml?page=2''"

definition sitemap3 :: pystr where
  "sitemap3 = str ''https://www.gov.wales/sitemap.xml?page=3''"

definition news_en :: pystr where
  "news_en = str ''https://www.gov.wales/news''"

definition news_cy :: pystr where
  "news_cy = str ''https://www.gov.wales/cy/newyddion''"

definition about_page :: pystr where
  "about_page = str ''https://www.gov.wales/about''"

definition gone_page :: pystr where
  "gone_page = str ''https://www.gov.wales/gone''"

definition broken_page :: pystr where
  "broken_page = str ''https://www.gov.wales/broken''"

text \<open>The English article holds double quotes and ends in a line feed; the Welsh one holds U+00E2.\<close>

definition article_en :: pystr where
  "article_en = str ''Visit '' @ [34] @ str ''London'' @ [34] @ str '' in 2024'' @ [10]"

definition article_cy :: pystr where
  "article_cy = str ''Ymweld '' @ [226] @ str '' London yn 2024''"

definition site :: "rat option \<Rightarrow> pystr list \<Rightarrow> pystr env" where
  "site delay children = \<lparr>
     REQUEST_DELAY = delay,
     session_get = (\<lambda>url. if url = gone_page then Inl RequestException else Inr url),
     ET_locs = (\<lambda>content.
        if content = root_sitemap then Inr children
        else if content = sitemap1 then Inr [news_en, about_page]
        else if content = sitemap3 then Inr [about_page, gone_page, broken_page]
        else Inl ParseError),
     BeautifulSoup = (\<lambda>content. if content = broken_page then Inl ParseError else Inr content),
     find_language_link = (\<lambda>soup.
        if soup = news_en then Some [str ''href'' \<mapsto> str ''/cy/newyddion''] else None),
     urljoin = (\<lambda>base href. Inr (str ''https://www.gov.wales'' @ href)),
     find_all_articles = (\<lambda>soup.
        if soup = news_en then [article_en]
        else if soup = news_cy then [article_cy]
        else []),
     md = (\<lambda>html. Inr html),
     tables = latin1,
     detect = (\<lambda>text. None),
     open_output = None \<rparr>"

text \<open>
  Two texts of 13 and 12 tokens for the rules behind the short-text rule: both name
  Cardiff and the year 2024; the English one has no word of the Welsh list.
\<close>

definition minister_en :: pystr where
  "minister_en = str ''The minister will visit the town of Cardiff in June 2024 for talks''"

definition minister_cy :: pystr where
  "minister_cy = str ''Bydd y gweinidog yn ymweld a thref Cardiff ym mis Mehefin 2024''"

text \<open>
  Two texts of 15 and 11 tokens that share one capitalised token, Cardiff, and no run
  of digits. The English one has three sentence ends and one paragraph, the Welsh one
  no sentence end and two paragraphs, so neither the sentence rule nor the paragraph
  rule accepts the pair.
\<close>

definition talks_en :: pystr where
  "talks_en =
     str ''Look. Wait. Stop. The minister will visit the town of Cardiff in June for talks''"

definition talks_cy :: pystr where
  "talks_cy =
     str ''Bydd y gweinidog yn ymweld a thref Cardiff'' @ [10, 10] @ str ''ym mis Mehefin''"

text \<open>
  Unicode case folding, which is \<open>str.casefold\<close> and not what the script calls, on the
  code points below 256: U+00DF folds to "ss", U+00B5 to U+03BC, an upper-case letter
  to its lower-case letter, and every other code point to itself. Under it STRASSE and
  Stra\<open>U+00DF\<close>e are equal; under \<open>str.lower\<close> they are not.
\<close>

definition latin1_casefold :: "pystr \<Rightarrow> pystr" where
  "latin1_casefold s =
     concat (map (\<lambda>c. if c = 223 then [115, 115]
                        else if c = 181 then [956]
                        else if latin1_isupper_char c then [c + 32]
                        else [c]) s)"

text \<open>
  Two texts of 15 and 13 tokens whose only common capitalised token up to case is the
  street name, written STRASSE in one and Stra\<open>U+00DF\<close>e in the other; sentence ends and
  paragraphs differ as above.
\<close>

definition street_en :: pystr where
  "street_en =
     str ''Look. Wait. Stop. The office is on STRASSE in the old town of the city''"

definition street_cy :: pystr where
  "street_cy =
     str ''Mae y swyddfa ar Stra'' @ [223] @ str ''e yn yr hen dref'' @ [10, 10] @
     str ''ger yr afon fawr''"

section \<open>Properties of the quality filter\<close>

text \<open>The definitions that a concrete instance of the filter unfolds.\<close>

lemmas text_eval =
  str_def str_split_def runs_def py_isspace_def re_findall_digits_def re_findall_punct_def
  str_split_nn_def latin1_def latin1_isupper_char_def latin1_islower_char_def
  common_en_words_def common_cy_words_def extract_probable_entities_def
  detection_rejects_def Let_def

lemma runs_acc_nonempty: "[] \<notin> set (runs_acc P cur xs)"
  by (induction xs arbitrary: cur) auto

lemma str_split_nonempty: "[] \<notin> set (str_split text)"
  by (simp add: str_split_def runs_def runs_acc_nonempty)

text \<open>\<open>word[0]\<close> never raises: \<open>split()\<close> yields no empty word.\<close>

lemma extract_probable_entities_Inr:
  "extract_probable_entities u text =
     Inr (set (map (str_lower u)
            (filter (\<lambda>word. str_isupper u [hd word] \<and> length word > 1) (str_split text))))"
  by (simp add: extract_probable_entities_def Let_def str_split_nonempty)

lemma quality_check_ZeroDivisionError_iff:
  "quality_check u d en_text cy_text = Inl ZeroDivisionError \<longleftrightarrow>
     str_split en_text = [] \<and> str_split cy_text = []"
  by (simp add: quality_check_def Let_def extract_probable_entities_Inr)

lemma quality_check_returns:
  assumes "str_split en_text \<noteq> [] \<or> str_split cy_text \<noteq> []"
  shows "\<exists>b. quality_check u d en_text cy_text = Inr b"
proof -
  from assms have "max (length (str_split en_text)) (length (str_split cy_text)) \<noteq> 0"
    by auto
  then show ?thesis
    by (auto simp add: quality_check_def Let_def extract_probable_entities_Inr)
qed

text \<open>
  C10. The division of \<open>quality_check\<close> is not guarded: the call raises
  \<open>ZeroDivisionError\<close> exactly when neither text has a token, as for two empty
  strings. When at least one text has a token the divisor \<open>max(en_length, cy_length)\<close>
  is positive and the call returns a decision.
\<close>

theorem quality_check_division_by_zero:
  "(quality_check u d en_text cy_text = Inl ZeroDivisionError \<longleftrightarrow>
      str_split en_text = [] \<and> str_split cy_text = []) \<and>
   (str_split en_text \<noteq> [] \<or> str_split cy_text \<noteq> [] \<longrightarrow>
      0 < max (length (str_split en_text)) (length (str_split cy_text)) \<and>
      (\<exists>b. quality_check u d en_text cy_text = Inr b)) \<and>
   quality_check u d [] [] = Inl ZeroDivisionError"
proof (intro conjI impI)
  show "quality_check u d en_text cy_text = Inl ZeroDivisionError \<longleftrightarrow>
      str_split en_text = [] \<and> str_split cy_text = []"
    by (rule quality_check_ZeroDivisionError_iff)
next
  assume "str_split en_text \<noteq> [] \<or> str_split cy_text \<noteq> []"
  then show "0 < max (length (str_split en_text)) (length (str_split cy_text))"
    by (auto simp add: less_max_iff_disj)
next
  assume "str_split en_text \<noteq> [] \<or> str_split cy_text \<noteq> []"
  then show "\<exists>b. quality_check u d en_text cy_text = Inr b"
    by (rule quality_check_returns)
next
  show "quality_check u d [] [] = Inl ZeroDivisionError"
    by (simp add: quality_check_ZeroDivisionError_iff str_split_def runs_def)
qed

theorem quality_check_division_by_zero_witness:
  "str_split (str ''The cat sat'') \<noteq> [] \<and>
   0 < max (length (str_split (str ''The cat sat''))) (length (str_split [])) \<and>
   (\<exists>b. quality_check latin1 (\<lambda>text. None) (str ''The cat sat'') [] = Inr b) \<and>
   quality_check latin1 (\<lambda>text. None) (str ''The cat sat'') [] \<noteq> Inl ZeroDivisionError"
proof -
  have tokens: "str_split (str ''The cat sat'') \<noteq> []"
    by (simp add: text_eval)
  note inst = quality_check_division_by_zero
    [of latin1 "\<lambda>text. None" "str ''The cat sat''" "[]"]
  from inst tokens show ?thesis
    by auto
qed

text \<open>
  C4. When both texts have fewer than 10 tokens and the length ratio is above one
  half, \<open>quality_check\<close> accepts, whatever the tables and the detector of the later
  rules are. The pair "The cat sat" and "Y gath yn eistedd" (3 and 4 tokens) is
  accepted.
\<close>

theorem quality_check_short_text_accepts:
  "(length (str_split en_text) < 10 \<and> length (str_split cy_text) < 10 \<and>
    1 / 2 < rat_of_nat (min (length (str_split en_text)) (length (str_split cy_text))) /
            rat_of_nat (max (length (str_split en_text)) (length (str_split cy_text)))
    \<longrightarrow> quality_check u d en_text cy_text = Inr True) \<and>
   quality_check u d (str ''The cat sat'') (str ''Y gath yn eistedd'') = Inr True"
proof (intro conjI impI)
  assume "length (str_split en_text) < 10 \<and> length (str_split cy_text) < 10 \<and>
    1 / 2 < rat_of_nat (min (length (str_split en_text)) (length (str_split cy_text))) /
            rat_of_nat (max (length (str_split en_text)) (length (str_split cy_text)))"
  then show "quality_check u d en_text cy_text = Inr True"
    by (auto simp add: quality_check_def Let_def)
next
  show "quality_check u d (str ''The cat sat'') (str ''Y gath yn eistedd'') = Inr True"
    by (simp add: quality_check_def text_eval)
qed

theorem quality_check_short_text_accepts_witness:
  "length (str_split (str ''Good morning Wales'')) = 3 \<and>
   length (str_split (str ''Bore da Cymru'')) = 3 \<and>
   quality_check latin1 (\<lambda>text. Some (str ''fr'')) (str ''Good morning Wales'') (str ''Bore da Cymru'')
     = Inr True"
proof -
  have en: "length (str_split (str ''Good morning Wales'')) = 3"
    by (simp add: text_eval)
  have cy: "length (str_split (str ''Bore da Cymru'')) = 3"
    by (simp add: text_eval)
  note inst = quality_check_short_text_accepts
    [of "str ''Good morning Wales''" "str ''Bore da Cymru''" latin1 "\<lambda>text. Some (str ''fr'')"]
  from inst en cy show ?thesis
    by simp
qed

text \<open>
  C3. When the two token counts are not both below 10 and the length ratio is below
  one fifth, \<open>quality_check\<close> rejects. Every English text of 50 tokens against a Welsh
  text of 5 tokens is rejected.
\<close>

theorem quality_check_gross_mismatch_rejects:
  "(\<not> (length (str_split en_text) < 10 \<and> length (str_split cy_text) < 10) \<and>
    rat_of_nat (min (length (str_split en_text)) (length (str_split cy_text))) /
    rat_of_nat (max (length (str_split en_text)) (length (str_split cy_text))) < 1 / 5
    \<longrightarrow> quality_check u d en_text cy_text = Inr False) \<and>
   (length (str_split en_text) = 50 \<and> length (str_split cy_text) = 5
    \<longrightarrow> quality_check u d en_text cy_text = Inr False)"
  by (auto simp add: quality_check_def Let_def)

theorem quality_check_gross_mismatch_rejects_witness:
  "length (str_split (str ''word word word word word word word word word word word word word word word word word word word word word word word word word word word word word word word word word word word word word word word word word word word word word word word word word word'')) = 50 \<and>
   length (str_split (str ''un dau tri pedwar pump'')) = 5 \<and>
   quality_check latin1 (\<lambda>text. None) (str ''word word word word word word word word word word word word word word word word word word word word word word word word word word word word word word word word word word word word word word word word word word word word word word word word word word'') (str ''un dau tri pedwar pump'')
     = Inr False"
proof -
  have en: "length (str_split (str ''word word word word word word word word word word word word word word word word word word word word word word word word word word word word word word word word word word word word word word word word word word word word word word word word word word'')) = 50"
    by (simp add: text_eval)
  have cy: "length (str_split (str ''un dau tri pedwar pump'')) = 5"
    by (simp add: text_eval)
  note inst = quality_check_gross_mismatch_rejects
    [of "str ''word word word word word word word word word word word word word word word word word word word word word word word word word word word word word word word word word word word word word word word word word word word word word word word word word word''" "str ''un dau tri pedwar pump''" latin1 "\<lambda>text. None"]
  from inst en cy show ?thesis
    by simp
qed

text \<open>
  A maximal run of elements that satisfy \<open>P\<close>, bounded on each side by the end of the
  list or by an element that does not satisfy \<open>P\<close>, is one of the runs.
\<close>

lemma runs_acc_flush:
  "xs \<noteq> [] \<Longrightarrow> \<not> P (last xs) \<Longrightarrow>
   runs_acc P cur (xs @ ys) = runs_acc P cur xs @ runs_acc P [] ys"
proof (induction xs arbitrary: cur)
  case Nil
  then show ?case by simp
next
  case (Cons x xs)
  show ?case
  proof (cases "xs = []")
    case True
    with Cons.prems show ?thesis by simp
  next
    case False
    with Cons.prems have "\<not> P (last xs)" by simp
    with False Cons.IH show ?thesis by simp
  qed
qed

lemma runs_acc_run:
  "list_all P d \<Longrightarrow> d \<noteq> [] \<or> cur \<noteq> [] \<Longrightarrow> post = [] \<or> \<not> P (hd post) \<Longrightarrow>
   runs_acc P cur (d @ post) = (rev cur @ d) # runs_acc P [] (tl post)"
proof (induction d arbitrary: cur)
  case Nil
  then show ?case by (cases post) auto
next
  case (Cons x d)
  from Cons.prems(1) have "P x" and "list_all P d" by simp_all
  with Cons.IH [of "x # cur"] Cons.prems(3) show ?case by simp
qed

lemma runs_maximal:
  assumes "d \<noteq> []" and "list_all P d"
    and "pre = [] \<or> \<not> P (last pre)"
    and "post = [] \<or> \<not> P (hd post)"
  shows "d \<in> set (runs P (pre @ d @ post))"
proof -
  have run: "runs_acc P [] (d @ post) = d # runs_acc P [] (tl post)"
    using runs_acc_run [of P d "[]" post] assms(1,2,4) by simp
  show ?thesis
  proof (cases "pre = []")
    case True
    with run show ?thesis by (simp add: runs_def)
  next
    case False
    with assms(3) have "\<not> P (last pre)" by simp
    with False have "runs_acc P [] (pre @ d @ post) =
        runs_acc P [] pre @ runs_acc P [] (d @ post)"
      by (rule runs_acc_flush)
    with run show ?thesis by (simp add: runs_def)
  qed
qed

text \<open>
  C5, as the code has it. A pair that the first four rules leave undecided (no
  short-text acceptance, no gross mismatch, a common function word on each side, no
  rejection by the language detection) is accepted when a token of the English text
  and a token of the Welsh text, each longer than one character and starting with an
  upper-case character, are equal after \<open>str.lower\<close>, or when the two texts hold the
  same maximal run of decimal digits. The pair "Visit London in 2024" and
  "Ymweld \<open>U+00E2\<close> London yn 2024" is accepted.
\<close>

theorem quality_check_shared_evidence_accepts:
  "(\<not> (length (str_split en_text) < 10 \<and> length (str_split cy_text) < 10 \<and>
        1 / 2 < rat_of_nat (min (length (str_split en_text)) (length (str_split cy_text))) /
                rat_of_nat (max (length (str_split en_text)) (length (str_split cy_text)))) \<and>
    \<not> rat_of_nat (min (length (str_split en_text)) (length (str_split cy_text))) /
      rat_of_nat (max (length (str_split en_text)) (length (str_split cy_text))) < 1 / 5 \<and>
    card (set (str_split (str_lower u en_text)) \<inter> common_en_words) \<noteq> 0 \<and>
    card (set (str_split (str_lower u cy_text)) \<inter> common_cy_words) \<noteq> 0 \<and>
    \<not> detection_rejects d en_text cy_text \<and>
    ((\<exists>en_word \<in> set (str_split en_text). \<exists>cy_word \<in> set (str_split cy_text).
        str_isupper u [hd en_word] \<and> 1 < length en_word \<and>
        str_isupper u [hd cy_word] \<and> 1 < length cy_word \<and>
        str_lower u en_word = str_lower u cy_word) \<or>
     (\<exists>digits en_pre en_post cy_pre cy_post.
        digits \<noteq> [] \<and> list_all (isdecimal u) digits \<and>
        en_text = en_pre @ digits @ en_post \<and>
        (en_pre = [] \<or> \<not> isdecimal u (last en_pre)) \<and>
        (en_post = [] \<or> \<not> isdecimal u (hd en_post)) \<and>
        cy_text = cy_pre @ digits @ cy_post \<and>
        (cy_pre = [] \<or> \<not> isdecimal u (last cy_pre)) \<and>
        (cy_post = [] \<or> \<not> isdecimal u (hd cy_post))))
    \<longrightarrow> quality_check u d en_text cy_text = Inr True) \<and>
   quality_check u d (str ''Visit London in 2024'') (str ''Ymweld '' @ [226] @ str '' London yn 2024'')
     = Inr True"
proof (intro conjI impI)
  let ?en_entities = "set (map (str_lower u)
      (filter (\<lambda>word. str_isupper u [hd word] \<and> length word > 1) (str_split en_text)))"
  let ?cy_entities = "set (map (str_lower u)
      (filter (\<lambda>word. str_isupper u [hd word] \<and> length word > 1) (str_split cy_text)))"
  let ?en_numbers = "set (re_findall_digits u en_text)"
  let ?cy_numbers = "set (re_findall_digits u cy_text)"
  assume h: "\<not> (length (str_split en_text) < 10 \<and> length (str_split cy_text) < 10 \<and>
        1 / 2 < rat_of_nat (min (length (str_split en_text)) (length (str_split cy_text))) /
                rat_of_nat (max (length (str_split en_text)) (length (str_split cy_text)))) \<and>
    \<not> rat_of_nat (min (length (str_split en_text)) (length (str_split cy_text))) /
      rat_of_nat (max (length (str_split en_text)) (length (str_split cy_text))) < 1 / 5 \<and>
    card (set (str_split (str_lower u en_text)) \<inter> common_en_words) \<noteq> 0 \<and>
    card (set (str_split (str_lower u cy_text)) \<inter> common_cy_words) \<noteq> 0 \<and>
    \<not> detection_rejects d en_text cy_text \<and>
    ((\<exists>en_word \<in> set (str_split en_text). \<exists>cy_word \<in> set (str_split cy_text).
        str_isupper u [hd en_word] \<and> 1 < length en_word \<and>
        str_isupper u [hd cy_word] \<and> 1 < length cy_word \<and>
        str_lower u en_word = str_lower u cy_word) \<or>
     (\<exists>digits en_pre en_post cy_pre cy_post.
        digits \<noteq> [] \<and> list_all (isdecimal u) digits \<and>
        en_text = en_pre @ digits @ en_post \<and>
        (en_pre = [] \<or> \<not> isdecimal u (last en_pre)) \<and>
        (en_post = [] \<or> \<not> isdecimal u (hd en_post)) \<and>
        cy_text = cy_pre @ digits @ cy_post \<and>
        (cy_pre = [] \<or> \<not> isdecimal u (last cy_pre)) \<and>
        (cy_post = [] \<or> \<not> isdecimal u (hd cy_post))))"
  then consider
    (noun) en_word cy_word where
      "en_word \<in> set (str_split en_text)" "cy_word \<in> set (str_split cy_text)"
      "str_isupper u [hd en_word]" "1 < length en_word"
      "str_isupper u [hd cy_word]" "1 < length cy_word"
      "str_lower u en_word = str_lower u cy_word"
    | (numeral) digits en_pre en_post cy_pre cy_post where
      "digits \<noteq> []" "list_all (isdecimal u) digits"
      "en_text = en_pre @ digits @ en_post"
      "en_pre = [] \<or> \<not> isdecimal u (last en_pre)"
      "en_post = [] \<or> \<not> isdecimal u (hd en_post)"
      "cy_text = cy_pre @ digits @ cy_post"
      "cy_pre = [] \<or> \<not> isdecimal u (last cy_pre)"
      "cy_post = [] \<or> \<not> isdecimal u (hd cy_post)"
    by blast
  then have shared: "?en_entities \<inter> ?cy_entities \<noteq> {} \<or> ?en_numbers \<inter> ?cy_numbers \<noteq> {}"
  proof cases
    case noun
    from noun(1,3,4) have "str_lower u en_word \<in> ?en_entities"
      by auto
    moreover from noun(2,5,6) have "str_lower u cy_word \<in> ?cy_entities"
      by auto
    ultimately show ?thesis
      using noun(7) by auto
  next
    case numeral
    have "digits \<in> ?en_numbers"
      unfolding re_findall_digits_def numeral(3)
      using numeral(1,2,4,5) by (rule runs_maximal)
    moreover have "digits \<in> ?cy_numbers"
      unfolding re_findall_digits_def numeral(6)
      using numeral(1,2,7,8) by (rule runs_maximal)
    ultimately show ?thesis
      by auto
  qed
  have "finite ((?en_entities \<inter> ?cy_entities) \<union> (?en_numbers \<inter> ?cy_numbers))"
    by simp
  with shared have common:
    "0 < card ((?en_entities \<inter> ?cy_entities) \<union> (?en_numbers \<inter> ?cy_numbers))"
    by (simp add: card_gt_0_iff)
  from h have nonzero: "max (length (str_split en_text)) (length (str_split cy_text)) \<noteq> 0"
    by auto
  from h have r1: "\<not> (length (str_split en_text) < 10 \<and> length (str_split cy_text) < 10 \<and>
        1 / 2 < rat_of_nat (min (length (str_split en_text)) (length (str_split cy_text))) /
                rat_of_nat (max (length (str_split en_text)) (length (str_split cy_text))))"
    by blast
  from h have r2: "\<not> rat_of_nat (min (length (str_split en_text)) (length (str_split cy_text))) /
      rat_of_nat (max (length (str_split en_text)) (length (str_split cy_text))) < 1 / 5"
    by blast
  from h have r3: "\<not> (card (set (str_split (str_lower u en_text)) \<inter> common_en_words) = 0 \<or>
      card (set (str_split (str_lower u cy_text)) \<inter> common_cy_words) = 0)"
    by blast
  from h have r4: "\<not> detection_rejects d en_text cy_text"
    by blast
  show "quality_check u d en_text cy_text = Inr True"
    unfolding quality_check_def Let_def
    by (simp only: nonzero r1 r2 r3 r4 common extract_probable_entities_Inr
        if_False if_True sum.case)
next
  show "quality_check u d (str ''Visit London in 2024'')
          (str ''Ymweld '' @ [226] @ str '' London yn 2024'') = Inr True"
    by (simp add: quality_check_def text_eval)
qed

theorem quality_check_shared_evidence_accepts_witness:
  "\<not> (length (str_split talks_en) < 10 \<and> length (str_split talks_cy) < 10) \<and>
   \<not> detection_rejects (\<lambda>text. None) talks_en talks_cy \<and>
   str ''Cardiff'' \<in> set (str_split talks_en) \<and>
   str ''Cardiff'' \<in> set (str_split talks_cy) \<and>
   str_isupper latin1 [hd (str ''Cardiff'')] \<and>
   set (re_findall_digits latin1 talks_en) \<inter> set (re_findall_digits latin1 talks_cy) = {} \<and>
   \<not> \<bar>int (length (re_findall_punct talks_en)) - int (length (re_findall_punct talks_cy))\<bar> \<le> 1 \<and>
   length (str_split_nn talks_en) \<noteq> length (str_split_nn talks_cy) \<and>
   quality_check latin1 (\<lambda>text. None) talks_en talks_cy = Inr True"
proof -
  have r1: "\<not> (length (str_split talks_en) < 10 \<and> length (str_split talks_cy) < 10)"
    by (simp add: talks_en_def talks_cy_def text_eval)
  have r2: "\<not> rat_of_nat (min (length (str_split talks_en)) (length (str_split talks_cy))) /
      rat_of_nat (max (length (str_split talks_en)) (length (str_split talks_cy))) < 1 / 5"
    by (simp add: talks_en_def talks_cy_def text_eval)
  have r3: "card (set (str_split (str_lower latin1 talks_en)) \<inter> common_en_words) \<noteq> 0"
    by (simp add: talks_en_def text_eval)
  have r3': "card (set (str_split (str_lower latin1 talks_cy)) \<inter> common_cy_words) \<noteq> 0"
    by (simp add: talks_cy_def text_eval)
  have r4: "\<not> detection_rejects (\<lambda>text. None) talks_en talks_cy"
    by (simp add: detection_rejects_def)
  have en_word: "str ''Cardiff'' \<in> set (str_split talks_en)"
    by (simp add: talks_en_def text_eval)
  have cy_word: "str ''Cardiff'' \<in> set (str_split talks_cy)"
    by (simp add: talks_cy_def text_eval)
  have upper: "str_isupper latin1 [hd (str ''Cardiff'')]"
    by (simp add: text_eval)
  have long: "1 < length (str ''Cardiff'')"
    by (simp add: str_def)
  have no_digits: "set (re_findall_digits latin1 talks_en) \<inter>
      set (re_findall_digits latin1 talks_cy) = {}"
    by (simp add: talks_en_def talks_cy_def text_eval)
  have r6: "\<not> \<bar>int (length (re_findall_punct talks_en)) -
      int (length (re_findall_punct talks_cy))\<bar> \<le> 1"
    by (simp add: talks_en_def talks_cy_def text_eval)
  have r7: "length (str_split_nn talks_en) \<noteq> length (str_split_nn talks_cy)"
    by (simp add: talks_en_def talks_cy_def text_eval)
  note inst = quality_check_shared_evidence_accepts
    [of talks_en talks_cy latin1 "\<lambda>text. None"]
  have "quality_check latin1 (\<lambda>text. None) talks_en talks_cy = Inr True"
    by (rule inst [THEN conjunct1, THEN mp])
       (use r1 r2 r3 r3' r4 en_word cy_word upper long in blast)
  with r1 r4 en_word cy_word upper no_digits r6 r7 show ?thesis
    by blast
qed

text \<open>
  The claim C5 as it is written compares the proper nouns case-folded. The texts
  \<open>street_en\<close> and \<open>street_cy\<close> pass the first four rules undecided and hold the tokens
  STRASSE and Stra\<open>U+00DF\<close>e, which start with an upper-case character, are longer than
  one character and are equal under case folding. The script lowers them with
  \<open>str.lower\<close>, which leaves U+00DF alone, finds nothing shared, and rejects the pair.
\<close>

theorem shared_casefold_noun_rejected:
  "\<not> (length (str_split street_en) < 10 \<and> length (str_split street_cy) < 10) \<and>
   \<not> rat_of_nat (min (length (str_split street_en)) (length (str_split street_cy))) /
     rat_of_nat (max (length (str_split street_en)) (length (str_split street_cy))) < 1 / 5 \<and>
   card (set (str_split (str_lower latin1 street_en)) \<inter> common_en_words) \<noteq> 0 \<and>
   card (set (str_split (str_lower latin1 street_cy)) \<inter> common_cy_words) \<noteq> 0 \<and>
   \<not> detection_rejects (\<lambda>text. None) street_en street_cy \<and>
   str ''STRASSE'' \<in> set (str_split street_en) \<and>
   str ''Stra'' @ [223] @ str ''e'' \<in> set (str_split street_cy) \<and>
   str_isupper latin1 [hd (str ''STRASSE'')] \<and> 1 < length (str ''STRASSE'') \<and>
   str_isupper latin1 [hd (str ''Stra'' @ [223] @ str ''e'')] \<and>
   1 < length (str ''Stra'' @ [223] @ str ''e'') \<and>
   latin1_casefold (str ''STRASSE'') = latin1_casefold (str ''Stra'' @ [223] @ str ''e'') \<and>
   str_lower latin1 (str ''STRASSE'') \<noteq> str_lower latin1 (str ''Stra'' @ [223] @ str ''e'') \<and>
   quality_check latin1 (\<lambda>text. None) street_en street_cy = Inr False"
  by (simp add: quality_check_def street_en_def street_cy_def latin1_casefold_def text_eval)

text \<open>
  C6. \<open>quality_check\<close> is not symmetric. The English text \<open>minister_en\<close> has no word of
  the Welsh list, so with the arguments swapped the common-word rule rejects, whatever
  the detector says; in the written order the pair passes that rule and is accepted
  on the shared evidence unless the language detection rejects it.
\<close>

theorem quality_check_not_symmetric:
  "quality_check latin1 d minister_cy minister_en = Inr False \<and>
   card (set (str_split (str_lower latin1 minister_en)) \<inter> common_cy_words) = 0 \<and>
   (\<not> detection_rejects d minister_en minister_cy \<longrightarrow>
      quality_check latin1 d minister_en minister_cy = Inr True \<and>
      (\<exists>a b. quality_check latin1 d a b \<noteq> quality_check latin1 d b a))"
proof -
  have swapped: "quality_check latin1 d minister_cy minister_en = Inr False"
    by (simp add: quality_check_def minister_en_def minister_cy_def text_eval)
  have none: "card (set (str_split (str_lower latin1 minister_en)) \<inter> common_cy_words) = 0"
    by (simp add: minister_en_def text_eval)
  have written: "quality_check latin1 d minister_en minister_cy = Inr True"
    if "\<not> detection_rejects d minister_en minister_cy"
    using that
    by (simp add: quality_check_def minister_en_def minister_cy_def
        str_def str_split_def runs_def py_isspace_def re_findall_digits_def
        latin1_def latin1_isupper_char_def latin1_islower_char_def
        common_en_words_def common_cy_words_def extract_probable_entities_def Let_def)
  from swapped none written show ?thesis
    by (metis Inr_inject)
qed

theorem quality_check_not_symmetric_witness:
  "\<not> detection_rejects
       (\<lambda>text. if text = minister_en then Some (str ''en'') else Some (str ''cy''))
       minister_en minister_cy \<and>
   quality_check latin1
       (\<lambda>text. if text = minister_en then Some (str ''en'') else Some (str ''cy''))
       minister_en minister_cy = Inr True \<and>
   quality_check latin1
       (\<lambda>text. if text = minister_en then Some (str ''en'') else Some (str ''cy''))
       minister_cy minister_en = Inr False"
proof -
  have ok: "\<not> detection_rejects
       (\<lambda>text. if text = minister_en then Some (str ''en'') else Some (str ''cy''))
       minister_en minister_cy"
    by (simp add: detection_rejects_def)
  note inst = quality_check_not_symmetric
    [of "\<lambda>text. if text = minister_en then Some (str ''en'') else Some (str ''cy'')"]
  from inst ok show ?thesis
    by blast
qed

section \<open>Properties of the sitemap enumeration\<close>

lemma lru_cache_fst:
  assumes "list_all (\<lambda>kv. f (fst kv) = Inr (snd kv)) cache"
  shows "fst (lru_cache maxsize f cache key) = f key"
proof (cases "map_of cache key")
  case None
  then show ?thesis
    by (simp add: lru_cache_def split: sum.splits)
next
  case (Some v)
  then have "(key, v) \<in> set cache"
    by (rule map_of_SomeD)
  with assms have "f key = Inr v"
    by (auto simp add: list_all_iff)
  with Some show ?thesis
    by (simp add: lru_cache_def)
qed

lemma lru_cache_snd:
  assumes "list_all (\<lambda>kv. f (fst kv) = Inr (snd kv)) cache"
  shows "list_all (\<lambda>kv. f (fst kv) = Inr (snd kv)) (snd (lru_cache maxsize f cache key))"
proof (cases "map_of cache key")
  case None
  show ?thesis
  proof (cases "f key")
    case (Inl e)
    with None assms show ?thesis
      by (simp add: lru_cache_def)
  next
    case (Inr v)
    have "set (take maxsize ((key, v) # cache)) \<subseteq> set ((key, v) # cache)"
      by (rule set_take_subset)
    with Inr assms have "list_all (\<lambda>kv. f (fst kv) = Inr (snd kv)) (take maxsize ((key, v) # cache))"
      unfolding list_all_iff by auto
    with None Inr show ?thesis
      by (simp add: lru_cache_def)
  qed
next
  case (Some v)
  then have "(key, v) \<in> set cache"
    by (rule map_of_SomeD)
  with assms Some show ?thesis
    by (auto simp add: lru_cache_def list_all_iff)
qed

text \<open>With a cache that holds only results of the body, \<open>get_urls\<close> returns what its body returns.\<close>

lemma get_urls_fst:
  "cache_ok w cache \<Longrightarrow> fst (get_urls w cache sitemap_url) = get_urls_body w sitemap_url"
  unfolding cache_ok_def get_urls_def by (rule lru_cache_fst)

lemma get_urls_snd:
  "cache_ok w cache \<Longrightarrow> cache_ok w (snd (get_urls w cache sitemap_url))"
  unfolding cache_ok_def get_urls_def by (rule lru_cache_snd)

lemma cache_ok_Nil: "cache_ok w []"
  by (simp add: cache_ok_def)

lemma fetch_sitemaps_all:
  assumes "cache_ok w cache"
    and "\<forall>u \<in> set sitemap_urls. \<exists>urls. get_urls_body w u = Inr urls"
  shows "fst (fetch_sitemaps w cache all_page_urls sitemap_urls) =
           Inr (all_page_urls @ concat (map (\<lambda>u. projr (get_urls_body w u)) sitemap_urls))"
  using assms
proof (induction sitemap_urls arbitrary: cache all_page_urls)
  case Nil
  then show ?case by simp
next
  case (Cons u rest)
  obtain r cache' where call: "get_urls w cache u = (r, cache')"
    by (cases "get_urls w cache u")
  from Cons.prems obtain urls where urls: "get_urls_body w u = Inr urls"
    by auto
  from call Cons.prems(1) have r: "r = Inr urls"
    using get_urls_fst [of w cache u] urls by simp
  from call Cons.prems(1) have ok: "cache_ok w cache'"
    using get_urls_snd [of w cache u] by simp
  from Cons.prems(2) have rest: "\<forall>u \<in> set rest. \<exists>urls. get_urls_body w u = Inr urls"
    by simp
  show ?case
    using Cons.IH [OF ok rest, of "all_page_urls @ urls"] call r urls
    by simp
qed

lemma fetch_sitemaps_first_failure:
  assumes "cache_ok w cache"
    and "\<forall>u \<in> set before. \<exists>urls. get_urls_body w u = Inr urls"
    and "get_urls_body w failing = Inl e"
  shows "fst (fetch_sitemaps w cache all_page_urls (before @ failing # after)) = Inl e"
  using assms(1,2)
proof (induction before arbitrary: cache all_page_urls)
  case Nil
  obtain r cache' where call: "get_urls w cache failing = (r, cache')"
    by (cases "get_urls w cache failing")
  with Nil.prems(1) assms(3) have "r = Inl e"
    using get_urls_fst [of w cache failing] by simp
  with call show ?case by simp
next
  case (Cons u rest)
  obtain r cache' where call: "get_urls w cache u = (r, cache')"
    by (cases "get_urls w cache u")
  from Cons.prems obtain urls where urls: "get_urls_body w u = Inr urls"
    by auto
  from call Cons.prems(1) have r: "r = Inr urls"
    using get_urls_fst [of w cache u] urls by simp
  from call Cons.prems(1) have ok: "cache_ok w cache'"
    using get_urls_snd [of w cache u] by simp
  from Cons.prems(2) have rest: "\<forall>u \<in> set rest. \<exists>urls. get_urls_body w u = Inr urls"
    by simp
  show ?case
    using Cons.IH [OF ok rest, of "all_page_urls @ urls"] call r
    by simp
qed

lemma enumerate_pages_root:
  assumes "get_urls_body w root_sitemap = Inr sitemap_urls"
  shows "\<exists>cache. cache_ok w cache \<and>
           enumerate_pages w = fst (fetch_sitemaps w cache [] sitemap_urls)"
proof -
  obtain r cache where call: "get_urls w [] root_sitemap = (r, cache)"
    by (cases "get_urls w [] root_sitemap")
  have r: "r = Inr sitemap_urls"
    using get_urls_fst [OF cache_ok_Nil, of w root_sitemap] call assms by simp
  have ok: "cache_ok w cache"
    using get_urls_snd [OF cache_ok_Nil, of w root_sitemap] call by simp
  from call r ok show ?thesis
    by (auto simp add: enumerate_pages_def)
qed

lemma main_enumeration_fails:
  assumes "enumerate_pages w = Inl e"
  shows "main w sched1 sched2 = \<lparr>written = None, units = [], logged = Some e\<rparr>"
  using assms by (simp add: main_def)

text \<open>The definitions that a run on the small site unfolds.\<close>

lemmas site_eval =
  site_def root_sitemap_def sitemap1_def sitemap2_def sitemap3_def news_en_def news_cy_def
  about_page_def gone_page_def broken_page_def article_en_def article_cy_def
  get_urls_body_def get_urls_def lru_cache_def enumerate_pages_def
  get_language_switch_url_def find_language_pair_def except_Exception_def
  get_announcement_articles_def scrape_page_try_def scrape_page_def process_url_pair_def
  main_def output_file_def

text \<open>
  C1, as the code has it. \<open>main\<close> has no handler around the fetch of a child
  sitemap. When every child sitemap of the index is fetched and parsed, the enumerated
  list is the concatenation of the URLs of all children, in the order of the index.
  When a child fails, the exception of the first failing child leaves the loop: the
  enumeration yields no URL, and the run ends in the handler of \<open>main\<close> with no unit
  of Phase 2 and without opening the output file.
\<close>

theorem enumerate_pages_all_or_nothing:
  "get_urls_body w root_sitemap = Inr sitemap_urls \<longrightarrow>
     ((\<forall>u \<in> set sitemap_urls. \<exists>urls. get_urls_body w u = Inr urls) \<longrightarrow>
        enumerate_pages w =
          Inr (concat (map (\<lambda>u. projr (get_urls_body w u)) sitemap_urls))) \<and>
     (\<forall>before failing after e.
        sitemap_urls = before @ failing # after \<and>
        (\<forall>u \<in> set before. \<exists>urls. get_urls_body w u = Inr urls) \<and>
        get_urls_body w failing = Inl e \<longrightarrow>
        enumerate_pages w = Inl e \<and>
        main w sched1 sched2 = \<lparr>written = None, units = [], logged = Some e\<rparr>)"
proof (intro impI conjI allI)
  assume root: "get_urls_body w root_sitemap = Inr sitemap_urls"
  then obtain cache where ok: "cache_ok w cache"
    and enum: "enumerate_pages w = fst (fetch_sitemaps w cache [] sitemap_urls)"
    using enumerate_pages_root by blast
  {
    assume "\<forall>u \<in> set sitemap_urls. \<exists>urls. get_urls_body w u = Inr urls"
    with ok enum show "enumerate_pages w =
          Inr (concat (map (\<lambda>u. projr (get_urls_body w u)) sitemap_urls))"
      by (simp add: fetch_sitemaps_all)
  }
  fix before failing after e
  assume h: "sitemap_urls = before @ failing # after \<and>
        (\<forall>u \<in> set before. \<exists>urls. get_urls_body w u = Inr urls) \<and>
        get_urls_body w failing = Inl e"
  with ok enum show failed: "enumerate_pages w = Inl e"
    by (simp add: fetch_sitemaps_first_failure)
  then show "main w sched1 sched2 = \<lparr>written = None, units = [], logged = Some e\<rparr>"
    by (rule main_enumeration_fails)
qed

theorem enumerate_pages_all_or_nothing_witness:
  "get_urls_body (site (Some 0) [sitemap1, sitemap3]) root_sitemap = Inr [sitemap1, sitemap3] \<and>
   enumerate_pages (site (Some 0) [sitemap1, sitemap3]) =
     Inr [news_en, about_page, about_page, gone_page, broken_page] \<and>
   get_urls_body (site (Some 0) [sitemap1, sitemap2, sitemap3]) root_sitemap =
     Inr ([sitemap1] @ sitemap2 # [sitemap3]) \<and>
   get_urls_body (site (Some 0) [sitemap1, sitemap2, sitemap3]) sitemap2 = Inl ParseError \<and>
   enumerate_pages (site (Some 0) [sitemap1, sitemap2, sitemap3]) = Inl ParseError"
proof -
  let ?good = "site (Some 0) [sitemap1, sitemap3]"
  let ?bad = "site (Some 0) [sitemap1, sitemap2, sitemap3]"
  have root: "get_urls_body ?good root_sitemap = Inr [sitemap1, sitemap3]"
    by (simp add: site_eval str_def)
  have children: "\<forall>u \<in> set [sitemap1, sitemap3]. \<exists>urls. get_urls_body ?good u = Inr urls"
    by (simp add: site_eval str_def)
  have urls: "concat (map (\<lambda>u. projr (get_urls_body ?good u)) [sitemap1, sitemap3]) =
      [news_en, about_page, about_page, gone_page, broken_page]"
    by (simp add: site_eval str_def)
  have good: "enumerate_pages ?good = Inr [news_en, about_page, about_page, gone_page, broken_page]"
    using enumerate_pages_all_or_nothing [of ?good "[sitemap1, sitemap3]"] root children urls
    by simp
  have root': "get_urls_body ?bad root_sitemap = Inr ([sitemap1] @ sitemap2 # [sitemap3])"
    by (simp add: site_eval str_def)
  have before: "\<forall>u \<in> set [sitemap1]. \<exists>urls. get_urls_body ?bad u = Inr urls"
    by (simp add: site_eval str_def)
  have failing: "get_urls_body ?bad sitemap2 = Inl ParseError"
    by (simp add: site_eval str_def)
  have bad: "enumerate_pages ?bad = Inl ParseError"
    using enumerate_pages_all_or_nothing [of ?bad "[sitemap1] @ sitemap2 # [sitemap3]"]
      root' before failing
    by blast
  from root good root' failing bad show ?thesis
    by blast
qed

text \<open>
  The claim C1 as it is written fails on the small site whose second child sitemap is
  not well-formed: its siblings 1 and 3 can be fetched and list pages, yet the
  enumeration returns no list, and the run ends without a pair and without a file.
\<close>

theorem sitemap_failure_aborts_enumeration:
  "get_urls_body (site (Some 0) [sitemap1, sitemap2, sitemap3]) root_sitemap =
     Inr [sitemap1, sitemap2, sitemap3] \<and>
   get_urls_body (site (Some 0) [sitemap1, sitemap2, sitemap3]) sitemap1 =
     Inr [news_en, about_page] \<and>
   get_urls_body (site (Some 0) [sitemap1, sitemap2, sitemap3]) sitemap2 = Inl ParseError \<and>
   get_urls_body (site (Some 0) [sitemap1, sitemap2, sitemap3]) sitemap3 =
     Inr [about_page, gone_page, broken_page] \<and>
   enumerate_pages (site (Some 0) [sitemap1, sitemap2, sitemap3]) = Inl ParseError \<and>
   (\<nexists>urls. enumerate_pages (site (Some 0) [sitemap1, sitemap2, sitemap3]) = Inr urls) \<and>
   main (site (Some 0) [sitemap1, sitemap2, sitemap3]) [] [] =
     \<lparr>written = None, units = [], logged = Some ParseError\<rparr>"
  by (simp add: site_eval str_def)

section \<open>Properties of the scraper\<close>

lemma scrape_page_Inr: "\<exists>articles. scrape_page w url = Inr articles"
  by (simp add: scrape_page_def except_Exception_def split: sum.splits)

text \<open>
  C8. \<open>scrape_page\<close> always returns a list: no exception leaves it. When the fetch
  raises, or the fetch succeeds and the parse raises, the list is empty.
\<close>

theorem scrape_page_never_raises:
  "(\<exists>articles. scrape_page w url = Inr articles) \<and>
   (session_get w url = Inl e \<longrightarrow> scrape_page w url = Inr []) \<and>
   (session_get w url = Inr content \<and> BeautifulSoup w content = Inl e \<longrightarrow>
      scrape_page w url = Inr [])"
proof (intro conjI impI)
  show "\<exists>articles. scrape_page w url = Inr articles"
    by (rule scrape_page_Inr)
next
  assume "session_get w url = Inl e"
  then show "scrape_page w url = Inr []"
    by (simp add: scrape_page_def scrape_page_try_def except_Exception_def
        split: option.splits)
next
  assume "session_get w url = Inr content \<and> BeautifulSoup w content = Inl e"
  then show "scrape_page w url = Inr []"
    by (simp add: scrape_page_def scrape_page_try_def except_Exception_def
        split: option.splits)
qed

theorem scrape_page_never_raises_witness:
  "session_get (site (Some 0) []) gone_page = Inl RequestException \<and>
   scrape_page (site (Some 0) []) gone_page = Inr [] \<and>
   session_get (site (Some 0) []) broken_page = Inr broken_page \<and>
   BeautifulSoup (site (Some 0) []) broken_page = Inl ParseError \<and>
   scrape_page (site (Some 0) []) broken_page = Inr []"
proof -
  have fetch: "session_get (site (Some 0) []) gone_page = Inl RequestException"
    by (simp add: site_def)
  have parse: "session_get (site (Some 0) []) broken_page = Inr broken_page \<and>
      BeautifulSoup (site (Some 0) []) broken_page = Inl ParseError"
    by (simp add: site_def gone_page_def broken_page_def str_def)
  from fetch parse
    scrape_page_never_raises [of "site (Some 0) []" gone_page RequestException]
    scrape_page_never_raises [of "site (Some 0) []" broken_page ParseError broken_page]
  show ?thesis
    by blast
qed

text \<open>
  The statement that \<open>scrape_page\<close> reaches for a page whose fetch, parse and
  conversions succeed, once \<open>REQUEST_DELAY\<close> is bound to a non-negative number: one
  block for each matched element, in document order.
\<close>

lemma comprehension_all:
  "\<forall>x \<in> set xs. \<exists>y. f x = Inr y \<Longrightarrow> comprehension f xs = Inr (map (\<lambda>x. projr (f x)) xs)"
  by (induction xs) auto

lemma scrape_page_bound_delay:
  assumes "REQUEST_DELAY w = Some d" and "0 \<le> d"
    and "session_get w url = Inr content"
    and "BeautifulSoup w content = Inr soup"
    and "\<forall>article \<in> set (find_all_articles w soup). \<exists>block. md w article = Inr block"
  shows "scrape_page w url = Inr (map (\<lambda>article. projr (md w article)) (find_all_articles w soup))"
  using assms
  by (simp add: scrape_page_def scrape_page_try_def except_Exception_def
      get_announcement_articles_def comprehension_all)

text \<open>
  In the script as it is, \<open>REQUEST_DELAY\<close> is never bound: \<open>time.sleep(REQUEST_DELAY)\<close>
  raises \<open>NameError\<close> inside the \<open>try\<close>, and \<open>scrape_page\<close> returns the empty list
  for every URL.
\<close>

lemma scrape_page_NameError: "REQUEST_DELAY w = None \<Longrightarrow> scrape_page w url = Inr []"
  by (simp add: scrape_page_def scrape_page_try_def except_Exception_def)

text \<open>
  C2 on the script as it is. The English news page of the small site is fetched and
  parsed and holds one article that converts, and \<open>scrape_page\<close> returns no block.
\<close>

theorem scrape_page_unbound_delay:
  "REQUEST_DELAY (site None [sitemap1]) = None \<and>
   session_get (site None [sitemap1]) news_en = Inr news_en \<and>
   BeautifulSoup (site None [sitemap1]) news_en = Inr news_en \<and>
   find_all_articles (site None [sitemap1]) news_en = [article_en] \<and>
   md (site None [sitemap1]) article_en = Inr article_en \<and>
   scrape_page (site None [sitemap1]) news_en = Inr []"
  by (simp add: site_eval str_def)

section \<open>Properties of the pipeline\<close>

lemma set_as_completed: "set (as_completed sched xs) = set xs"
proof (induction sched xs rule: as_completed.induct)
  case (3 c sched x xs)
  define i where "i = c mod length (x # xs)"
  define rest where "rest = take i (x # xs) @ drop (Suc i) (x # xs)"
  have i: "i < length (x # xs)"
    by (simp add: i_def)
  have step: "as_completed (c # sched) (x # xs) = (x # xs) ! i # as_completed sched rest"
    by (simp add: i_def rest_def Let_def)
  have IH: "set (as_completed sched rest) = set rest"
    unfolding rest_def using "3.IH" [of i] by (simp add: i_def)
  have "set (x # xs) = set (take i (x # xs) @ (x # xs) ! i # drop (Suc i) (x # xs))"
    using id_take_nth_drop [OF i] by simp
  also have "\<dots> = insert ((x # xs) ! i) (set rest)"
    unfolding rest_def by auto
  finally have "set (x # xs) = insert ((x # xs) ! i) (set rest)" .
  with IH show ?case
    unfolding step by (simp only: list.set)
qed simp_all

lemma collect_pairs_none:
  "\<forall>url \<in> set urls. find_language_pair w url = Inr None \<Longrightarrow>
   collect_pairs w url_pairs urls = Inr url_pairs"
  by (induction urls) auto

text \<open>
  C9. When the enumeration has returned the pages, every call of \<open>find_language_pair\<close>
  returns no pair and the output file can be opened, no unit of Phase 2 is submitted,
  nothing is written, and the output file exists and is empty whatever it held
  before.
\<close>

theorem no_pairs_empty_output:
  "enumerate_pages w = Inr all_page_urls \<and>
   (\<forall>url \<in> set all_page_urls. find_language_pair w url = Inr None) \<and>
   open_output w = None \<longrightarrow>
   units (main w sched1 sched2) = [] \<and>
   written (main w sched1 sched2) = Some [] \<and>
   logged (main w sched1 sched2) = None \<and>
   output_file prior (main w sched1 sched2) = Some []"
proof
  assume h: "enumerate_pages w = Inr all_page_urls \<and>
   (\<forall>url \<in> set all_page_urls. find_language_pair w url = Inr None) \<and>
   open_output w = None"
  then have "\<forall>url \<in> set (as_completed sched1 all_page_urls). find_language_pair w url = Inr None"
    by (simp add: set_as_completed)
  then have "collect_pairs w [] (as_completed sched1 all_page_urls) = Inr []"
    by (rule collect_pairs_none)
  with h have "main w sched1 sched2 = \<lparr>written = Some [], units = [], logged = None\<rparr>"
    by (simp add: main_def)
  then show "units (main w sched1 sched2) = [] \<and>
   written (main w sched1 sched2) = Some [] \<and>
   logged (main w sched1 sched2) = None \<and>
   output_file prior (main w sched1 sched2) = Some []"
    by (simp add: output_file_def)
qed

theorem no_pairs_empty_output_witness:
  "enumerate_pages (site (Some 0) [sitemap3]) = Inr [about_page, gone_page, broken_page] \<and>
   find_language_pair (site (Some 0) [sitemap3]) about_page = Inr None \<and>
   find_language_pair (site (Some 0) [sitemap3]) gone_page = Inr None \<and>
   find_language_pair (site (Some 0) [sitemap3]) broken_page = Inr None \<and>
   open_output (site (Some 0) [sitemap3]) = None \<and>
   units (main (site (Some 0) [sitemap3]) [2, 0] []) = [] \<and>
   written (main (site (Some 0) [sitemap3]) [2, 0] []) = Some [] \<and>
   output_file (Some (str ''an older run'')) (main (site (Some 0) [sitemap3]) [2, 0] []) = Some []"
proof -
  let ?w = "site (Some 0) [sitemap3]"
  have pages: "enumerate_pages ?w = Inr [about_page, gone_page, broken_page]"
    by (simp add: site_eval str_def)
  have about: "find_language_pair ?w about_page = Inr None"
    by (simp add: site_eval str_def)
  have gone: "find_language_pair ?w gone_page = Inr None"
    by (simp add: site_eval str_def)
  have broken: "find_language_pair ?w broken_page = Inr None"
    by (simp add: site_eval str_def)
  have opened: "open_output ?w = None"
    by (simp add: site_def)
  from about gone broken
  have none: "\<forall>url \<in> set [about_page, gone_page, broken_page]. find_language_pair ?w url = Inr None"
    by simp
  note inst = no_pairs_empty_output
    [of ?w "[about_page, gone_page, broken_page]" "[2, 0]" "[]" "Some (str ''an older run'')"]
  from inst pages none opened about gone broken show ?thesis
    by blast
qed

section \<open>Properties of the output records\<close>

lemma hex_val_hex_digit: "d < 16 \<Longrightarrow> hex_val (hex_digit d) = Some d"
  by (simp add: hex_val_def hex_digit_def)

lemma scanstring_quote: "scanstring acc (34 # rest) = Some (rev acc, rest)"
  by (cases rest) simp_all

lemma scanstring_plain:
  "c \<noteq> 34 \<Longrightarrow> c \<noteq> 92 \<Longrightarrow> 32 \<le> c \<Longrightarrow> scanstring acc (c # cs) = scanstring (c # acc) cs"
  by (cases cs) auto

text \<open>Reading what the encoder wrote for one character gives the character back.\<close>

lemma scanstring_encode_char:
  "scanstring acc (encode_char c @ tail) = scanstring (c # acc) tail"
proof -
  consider (special) "c = 92 \<or> c = 34 \<or> c = 8 \<or> c = 12 \<or> c = 10 \<or> c = 13 \<or> c = 9"
    | (control) "c < 32" "c \<noteq> 8" "c \<noteq> 12" "c \<noteq> 10" "c \<noteq> 13" "c \<noteq> 9"
    | (plain) "32 \<le> c" "c \<noteq> 92" "c \<noteq> 34"
    by linarith
  then show ?thesis
  proof cases
    case special
    then show ?thesis
      by (auto simp add: encode_char_def unescape_def)
  next
    case control
    have hi: "hex_val (hex_digit (c div 16)) = Some (c div 16)"
      using control(1) by (intro hex_val_hex_digit) simp
    have lo: "hex_val (hex_digit (c mod 16)) = Some (c mod 16)"
      by (intro hex_val_hex_digit) simp
    have zero: "hex_val 48 = Some 0"
      by (simp add: hex_val_def)
    from control have "encode_char c = [92, 117, 48, 48, hex_digit (c div 16), hex_digit (c mod 16)]"
      by (simp add: encode_char_def)
    then show ?thesis
      by (simp add: hi lo zero)
  next
    case plain
    then have "encode_char c = [c]"
      by (simp add: encode_char_def)
    with plain show ?thesis
      by (simp add: scanstring_plain)
  qed
qed

lemma scanstring_encoded:
  "scanstring acc (concat (map encode_char s) @ 34 # rest) = Some (rev acc @ s, rest)"
proof (induction s arbitrary: acc)
  case Nil
  show ?case by (simp add: scanstring_quote)
next
  case (Cons c s)
  have "scanstring acc (concat (map encode_char (c # s)) @ 34 # rest) =
        scanstring acc (encode_char c @ (concat (map encode_char s) @ 34 # rest))"
    by simp
  also have "\<dots> = scanstring (c # acc) (concat (map encode_char s) @ 34 # rest)"
    by (rule scanstring_encode_char)
  also have "\<dots> = Some (rev (c # acc) @ s, rest)"
    by (rule Cons.IH)
  finally show ?case by simp
qed

lemma read_string_encoded: "read_string (encode_basestring s @ rest) = Some (s, rest)"
  using scanstring_encoded [of "[]" s rest]
  by (simp add: read_string_def skip_ws_def encode_basestring_def)

lemma read_string_space: "read_string (32 # s) = read_string s"
  by (simp add: read_string_def skip_ws_def)

lemma read_member_space: "read_member (32 # s) = read_member s"
  by (simp add: read_member_def read_string_space)

lemma read_member_encoded:
  "read_member (encode_basestring k @ 58 # 32 # encode_basestring v @ rest) =
     Some ((k, v), skip_ws rest)"
proof -
  have "read_string (encode_basestring k @ (58 # 32 # encode_basestring v @ rest)) =
        Some (k, 58 # 32 # encode_basestring v @ rest)"
    by (rule read_string_encoded)
  moreover have "skip_ws (58 # 32 # encode_basestring v @ rest) =
        58 # 32 # encode_basestring v @ rest"
    by (simp add: skip_ws_def)
  moreover have "read_string (32 # encode_basestring v @ rest) = Some (v, rest)"
    by (simp add: read_string_space read_string_encoded)
  ultimately show ?thesis
    by (simp add: read_member_def)
qed

text \<open>A record that \<open>json_dump\<close> wrote reads back as its three members.\<close>

lemma json_loads_object_json_dump:
  "json_loads_object (json_dump en cy url) =
     Some [(str ''en'', en), (str ''cy'', cy), (str ''url'', url)]"
proof -
  define m3 where "m3 = encode_basestring (str ''url'') @ 58 # 32 # encode_basestring url @ [125]"
  define m2 where "m2 = encode_basestring (str ''cy'') @ 58 # 32 # encode_basestring cy @ 44 # 32 # m3"
  define m1 where "m1 = encode_basestring (str ''en'') @ 58 # 32 # encode_basestring en @ 44 # 32 # m2"
  have dump: "json_dump en cy url = 123 # m1"
    by (simp add: json_dump_def m1_def m2_def m3_def str_def)
  have r3: "read_members (Suc n) m3 = Some [(str ''url'', url)]" for n
    using read_member_encoded [of "str ''url''" url "[125]"]
    by (simp add: m3_def skip_ws_def)
  have r2: "read_members (Suc (Suc n)) m2 = Some [(str ''cy'', cy), (str ''url'', url)]" for n
    using read_member_encoded [of "str ''cy''" cy "44 # 32 # m3"] r3 [of n]
    by (simp add: m2_def skip_ws_def read_member_space del: read_members.simps(2))
       (simp add: read_member_space)
  have r1: "read_members (Suc (Suc (Suc n))) m1 =
      Some [(str ''en'', en), (str ''cy'', cy), (str ''url'', url)]" for n
    using read_member_encoded [of "str ''en''" en "44 # 32 # m2"] r2 [of n]
    by (simp add: m1_def skip_ws_def read_member_space del: read_members.simps(2))
       (simp add: read_member_space)
  obtain t where m1: "m1 = 34 # t"
    by (simp add: m1_def encode_basestring_def)
  have len: "3 \<le> length (123 # m1)"
    by (simp add: m1_def encode_basestring_def)
  define n where "n = length (123 # m1) - 3"
  have fuel: "length (123 # m1) = Suc (Suc (Suc n))"
    using len by (simp add: n_def)
  have "read_members (length (123 # m1)) m1 =
      Some [(str ''en'', en), (str ''cy'', cy), (str ''url'', url)]"
    unfolding fuel by (rule r1)
  then have "read_members (length (123 # 34 # t)) (34 # t) =
      Some [(str ''en'', en), (str ''cy'', cy), (str ''url'', url)]"
    unfolding m1 .
  then show ?thesis
    unfolding dump m1 json_loads_object_def
    by (simp add: skip_ws_def)
qed

lemma hex_digit_range: "d < 16 \<Longrightarrow> 48 \<le> hex_digit d \<and> hex_digit d \<le> 102"
  by (simp add: hex_digit_def)

lemma encode_char_no_line_end: "10 \<notin> set (encode_char c) \<and> 13 \<notin> set (encode_char c)"
proof -
  have "48 \<le> hex_digit (c mod 16)"
    using hex_digit_range [of "c mod 16"] by simp
  moreover have "48 \<le> hex_digit (c div 16)"
    by (simp add: hex_digit_def)
  ultimately show ?thesis
    by (auto simp add: encode_char_def)
qed

lemma encode_basestring_no_line_end:
  "10 \<notin> set (encode_basestring s) \<and> 13 \<notin> set (encode_basestring s)"
  using encode_char_no_line_end by (auto simp add: encode_basestring_def)

text \<open>A record holds neither a line feed nor a carriage return: it is one line.\<close>

lemma json_dump_no_line_end:
  "10 \<notin> set (json_dump en cy url) \<and> 13 \<notin> set (json_dump en cy url)"
  by (simp add: json_dump_def encode_basestring_no_line_end) (simp add: str_def)

text \<open>
  The encoder passes every code point from U+0080 on unchanged and adds only ASCII
  characters: the non-ASCII characters of a record are those of its three strings.
\<close>

lemma encode_char_non_ascii:
  "filter (\<lambda>x. 128 \<le> x) (encode_char c) = filter (\<lambda>x. 128 \<le> x) [c]"
proof -
  have "hex_digit (c mod 16) < 128"
    using hex_digit_range [of "c mod 16"] by simp
  moreover have "hex_digit (c div 16) < 128" if "c < 32"
  proof -
    from that have "c div 16 < 16"
      by presburger
    then show ?thesis
      using hex_digit_range [of "c div 16"] by simp
  qed
  ultimately show ?thesis
    by (auto simp add: encode_char_def)
qed

lemma encode_basestring_non_ascii:
  "filter (\<lambda>x. 128 \<le> x) (encode_basestring s) = filter (\<lambda>x. 128 \<le> x) s"
proof -
  have "filter (\<lambda>x. 128 \<le> x) (concat (map encode_char s)) = filter (\<lambda>x. 128 \<le> x) s"
  proof (induction s)
    case Nil
    show ?case by simp
  next
    case (Cons c s)
    then show ?case
      using encode_char_non_ascii [of c] by simp
  qed
  then show ?thesis
    by (simp add: encode_basestring_def)
qed

lemma json_dump_non_ascii:
  "filter (\<lambda>x. 128 \<le> x) (json_dump en cy url) = filter (\<lambda>x. 128 \<le> x) (en @ cy @ url)"
  by (simp add: json_dump_def encode_basestring_non_ascii) (simp add: str_def)

subsection \<open>The lines of the file\<close>

lemma lines_acc_line:
  "10 \<notin> set l \<Longrightarrow> lines_acc cur (l @ 10 # rest) = (rev cur @ l) # lines_acc [] rest"
  by (induction l arbitrary: cur) auto

lemma write_results_concat:
  "write_results f results =
     f @ concat (map (\<lambda>(en, cy, url). json_dump en cy url @ [10]) results)"
  by (induction results arbitrary: f) auto

lemma write_results_append:
  "write_results (write_results f xs) ys = write_results f (xs @ ys)"
  by (simp add: write_results_concat)

lemma file_lines_records:
  "file_lines (concat (map (\<lambda>(en, cy, url). json_dump en cy url @ [10]) results)) =
     map (\<lambda>(en, cy, url). json_dump en cy url) results"
proof (induction results)
  case Nil
  show ?case by (simp add: file_lines_def)
next
  case (Cons r results)
  obtain en cy url where r: "r = (en, cy, url)"
    by (cases r)
  have "10 \<notin> set (json_dump en cy url)"
    using json_dump_no_line_end by blast
  then have "lines_acc [] (json_dump en cy url @ 10 #
        concat (map (\<lambda>(en, cy, url). json_dump en cy url @ [10]) results)) =
      json_dump en cy url #
        lines_acc [] (concat (map (\<lambda>(en, cy, url). json_dump en cy url @ [10]) results))"
    using lines_acc_line [of "json_dump en cy url" "[]"] by simp
  with Cons.IH show ?case
    by (simp add: file_lines_def r)
qed

subsection \<open>Where a record comes from\<close>

lemma check_pairs_results:
  assumes "check_pairs w en_url valid_pairs zipped = Inr results"
    and "r \<in> set results"
  shows "r \<in> set valid_pairs \<or>
         (\<exists>en cy. r = (en, cy, en_url) \<and> (en, cy) \<in> set zipped \<and>
            quality_check (tables w) (detect w) en cy = Inr True)"
  using assms
proof (induction zipped arbitrary: valid_pairs)
  case Nil
  then show ?case by simp
next
  case (Cons z zipped)
  obtain en cy where z: "z = (en, cy)"
    by (cases z)
  show ?case
  proof (cases "quality_check (tables w) (detect w) en cy")
    case (Inl e)
    with Cons.prems z show ?thesis by simp
  next
    case (Inr ok)
    show ?thesis
    proof (cases ok)
      case True
      with Inr Cons.prems z
      have "check_pairs w en_url (valid_pairs @ [(en, cy, en_url)]) zipped = Inr results"
        by simp
      from Cons.IH [OF this Cons.prems(2)] Inr True z show ?thesis
        by auto
    next
      case False
      with Inr Cons.prems z
      have "check_pairs w en_url valid_pairs zipped = Inr results"
        by simp
      from Cons.IH [OF this Cons.prems(2)] z show ?thesis
        by auto
    qed
  qed
qed

lemma process_url_pair_results:
  assumes "process_url_pair w en_url cy_url = Inr results"
    and "r \<in> set results"
  shows "\<exists>en cy en_articles cy_articles.
           r = (en, cy, en_url) \<and>
           scrape_page w en_url = Inr en_articles \<and>
           scrape_page w cy_url = Inr cy_articles \<and>
           (en, cy) \<in> set (zip en_articles cy_articles) \<and>
           quality_check (tables w) (detect w) en cy = Inr True"
proof -
  obtain en_articles where en: "scrape_page w en_url = Inr en_articles"
    using scrape_page_Inr by blast
  obtain cy_articles where cy: "scrape_page w cy_url = Inr cy_articles"
    using scrape_page_Inr by blast
  from assms(1) en cy
  have "check_pairs w en_url [] (zip en_articles cy_articles) = Inr results"
    by (simp add: process_url_pair_def)
  from check_pairs_results [OF this assms(2)] en cy show ?thesis
    by auto
qed

lemma write_completed_records:
  assumes "write_completed w f pairs = (f', err)"
  shows "\<exists>records. f' = write_results f records \<and>
           (\<forall>r \<in> set records. \<exists>en_url cy_url results.
              (en_url, cy_url) \<in> set pairs \<and>
              process_url_pair w en_url cy_url = Inr results \<and> r \<in> set results)"
  using assms
proof (induction pairs arbitrary: f)
  case Nil
  then have "f' = write_results f []"
    by simp
  then show ?case
    by (intro exI [of _ "[]"]) simp
next
  case (Cons p pairs)
  obtain en_url cy_url where p: "p = (en_url, cy_url)"
    by (cases p)
  show ?case
  proof (cases "process_url_pair w en_url cy_url")
    case (Inl e)
    with Cons.prems p have "f' = write_results f []"
      by simp
    then show ?thesis
      by (intro exI [of _ "[]"]) simp
  next
    case (Inr results)
    with Cons.prems p
    have "write_completed w (write_results f results) pairs = (f', err)"
      by simp
    from Cons.IH [OF this] obtain records where
      f': "f' = write_results (write_results f results) records" and
      from_pairs: "\<forall>r \<in> set records. \<exists>en_url cy_url results.
              (en_url, cy_url) \<in> set pairs \<and>
              process_url_pair w en_url cy_url = Inr results \<and> r \<in> set results"
      by blast
    have "f' = write_results f (results @ records)"
      using f' by (simp add: write_results_append)
    moreover have "\<forall>r \<in> set (results @ records). \<exists>en_url cy_url results.
              (en_url, cy_url) \<in> set (p # pairs) \<and>
              process_url_pair w en_url cy_url = Inr results \<and> r \<in> set results"
    proof
      fix r
      assume "r \<in> set (results @ records)"
      then consider (head) "r \<in> set results" | (tail) "r \<in> set records"
        by auto
      then show "\<exists>en_url cy_url results.
              (en_url, cy_url) \<in> set (p # pairs) \<and>
              process_url_pair w en_url cy_url = Inr results \<and> r \<in> set results"
      proof cases
        case head
        with Inr p show ?thesis
          by (intro exI [of _ en_url] exI [of _ cy_url] exI [of _ results]) simp
      next
        case tail
        with from_pairs obtain a b rs where
          "(a, b) \<in> set pairs" "process_url_pair w a b = Inr rs" "r \<in> set rs"
          by blast
        then show ?thesis
          by (intro exI [of _ a] exI [of _ b] exI [of _ rs]) simp
      qed
    qed
    ultimately show ?thesis
      by blast
  qed
qed

lemma find_language_pair_Some:
  "find_language_pair w url = Inr (Some (en_url, cy_url)) \<Longrightarrow> en_url = url"
  by (auto simp add: find_language_pair_def except_Exception_def
      split: sum.splits option.splits if_splits)

lemma collect_pairs_found:
  assumes "collect_pairs w url_pairs urls = Inr found"
    and "p \<in> set found"
  shows "p \<in> set url_pairs \<or> (\<exists>url \<in> set urls. find_language_pair w url = Inr (Some p))"
  using assms
proof (induction urls arbitrary: url_pairs)
  case Nil
  then show ?case by simp
next
  case (Cons url urls)
  show ?case
  proof (cases "find_language_pair w url")
    case (Inl e)
    with Cons.prems show ?thesis by simp
  next
    case (Inr found_pair)
    show ?thesis
    proof (cases found_pair)
      case None
      with Inr Cons.prems have "collect_pairs w url_pairs urls = Inr found"
        by simp
      from Cons.IH [OF this Cons.prems(2)] show ?thesis
        by auto
    next
      case (Some pair)
      with Inr Cons.prems have "collect_pairs w (url_pairs @ [pair]) urls = Inr found"
        by simp
      from Cons.IH [OF this Cons.prems(2)] Inr Some show ?thesis
        by auto
    qed
  qed
qed

lemma main_written:
  assumes "written (main w sched1 sched2) = Some f"
  shows "\<exists>all_page_urls url_pairs err.
           enumerate_pages w = Inr all_page_urls \<and>
           collect_pairs w [] (as_completed sched1 all_page_urls) = Inr url_pairs \<and>
           write_completed w [] (as_completed sched2 url_pairs) = (f, err)"
  using assms
  by (auto simp add: main_def split: sum.splits option.splits prod.splits)

text \<open>
  C7. Every line of the text that a run writes is a record \<open>json_dump en cy en_url\<close>:
  it holds no line feed, it reads back as the JSON object with exactly the members
  \<open>en\<close>, \<open>cy\<close> and \<open>url\<close> and the strings that were written, its characters from
  U+0080 on are those of the three strings, unescaped, and the strings are a pair of
  blocks at the same index of the two pages of a language pair found in Phase 1, which
  \<open>quality_check\<close> accepted, with the URL of the English page. The written text
  consists of these lines, each ended by a line feed.
\<close>

theorem output_records_well_formed:
  "(written (main w sched1 sched2) = Some f \<and> line \<in> set (file_lines f) \<longrightarrow>
     (\<exists>en cy en_url cy_url en_articles cy_articles.
        line = json_dump en cy en_url \<and>
        10 \<notin> set line \<and>
        json_loads_object line =
          Some [(str ''en'', en), (str ''cy'', cy), (str ''url'', en_url)] \<and>
        filter (\<lambda>x. 128 \<le> x) line = filter (\<lambda>x. 128 \<le> x) (en @ cy @ en_url) \<and>
        find_language_pair w en_url = Inr (Some (en_url, cy_url)) \<and>
        scrape_page w en_url = Inr en_articles \<and>
        scrape_page w cy_url = Inr cy_articles \<and>
        (en, cy) \<in> set (zip en_articles cy_articles) \<and>
        quality_check (tables w) (detect w) en cy = Inr True)) \<and>
   (written (main w sched1 sched2) = Some f \<longrightarrow>
     f = concat (map (\<lambda>l. l @ [10]) (file_lines f)))"
proof (intro conjI impI)
  assume h: "written (main w sched1 sched2) = Some f \<and> line \<in> set (file_lines f)"
  then obtain all_page_urls url_pairs err where
    pairs: "collect_pairs w [] (as_completed sched1 all_page_urls) = Inr url_pairs" and
    loop: "write_completed w [] (as_completed sched2 url_pairs) = (f, err)"
    using main_written by blast
  from write_completed_records [OF loop] obtain records where
    f: "f = write_results [] records" and
    from_pairs: "\<forall>r \<in> set records. \<exists>en_url cy_url results.
        (en_url, cy_url) \<in> set (as_completed sched2 url_pairs) \<and>
        process_url_pair w en_url cy_url = Inr results \<and> r \<in> set results"
    by blast
  have "file_lines f = map (\<lambda>(en, cy, url). json_dump en cy url) records"
    unfolding f by (simp add: write_results_concat file_lines_records)
  with h obtain r where r: "r \<in> set records" and
    line_r: "line = (case r of (en, cy, url) \<Rightarrow> json_dump en cy url)"
    by auto
  from from_pairs r obtain en_url cy_url results where
    pair: "(en_url, cy_url) \<in> set url_pairs" and
    unit: "process_url_pair w en_url cy_url = Inr results" and
    r_in: "r \<in> set results"
    by (auto simp add: set_as_completed)
  from process_url_pair_results [OF unit r_in] obtain en cy en_articles cy_articles where
    r_eq: "r = (en, cy, en_url)" and
    en: "scrape_page w en_url = Inr en_articles" and
    cy: "scrape_page w cy_url = Inr cy_articles" and
    zipped: "(en, cy) \<in> set (zip en_articles cy_articles)" and
    ok: "quality_check (tables w) (detect w) en cy = Inr True"
    by blast
  from collect_pairs_found [OF pairs pair] obtain url where
    found: "find_language_pair w url = Inr (Some (en_url, cy_url))"
    by auto
  then have "en_url = url"
    by (rule find_language_pair_Some)
  with found have resolved: "find_language_pair w en_url = Inr (Some (en_url, cy_url))"
    by simp
  from line_r r_eq have line: "line = json_dump en cy en_url"
    by simp
  have one_line: "10 \<notin> set line"
    unfolding line using json_dump_no_line_end by blast
  have reads: "json_loads_object line =
      Some [(str ''en'', en), (str ''cy'', cy), (str ''url'', en_url)]"
    unfolding line by (rule json_loads_object_json_dump)
  have literal: "filter (\<lambda>x. 128 \<le> x) line = filter (\<lambda>x. 128 \<le> x) (en @ cy @ en_url)"
    unfolding line by (rule json_dump_non_ascii)
  from line one_line reads literal resolved en cy zipped ok
  show "\<exists>en cy en_url cy_url en_articles cy_articles.
        line = json_dump en cy en_url \<and>
        10 \<notin> set line \<and>
        json_loads_object line =
          Some [(str ''en'', en), (str ''cy'', cy), (str ''url'', en_url)] \<and>
        filter (\<lambda>x. 128 \<le> x) line = filter (\<lambda>x. 128 \<le> x) (en @ cy @ en_url) \<and>
        find_language_pair w en_url = Inr (Some (en_url, cy_url)) \<and>
        scrape_page w en_url = Inr en_articles \<and>
        scrape_page w cy_url = Inr cy_articles \<and>
        (en, cy) \<in> set (zip en_articles cy_articles) \<and>
        quality_check (tables w) (detect w) en cy = Inr True"
    by blast
next
  assume "written (main w sched1 sched2) = Some f"
  then obtain url_pairs err where
    "write_completed w [] (as_completed sched2 url_pairs) = (f, err)"
    using main_written by blast
  from write_completed_records [OF this] obtain records where
    f: "f = write_results [] records"
    by blast
  have lines: "file_lines f = map (\<lambda>(en, cy, url). json_dump en cy url) records"
    unfolding f by (simp add: write_results_concat file_lines_records)
  have "concat (map (\<lambda>l. l @ [10]) (map (\<lambda>(en, cy, url). json_dump en cy url) records)) =
      concat (map (\<lambda>(en, cy, url). json_dump en cy url @ [10]) records)"
    by (induction records) auto
  with lines show "f = concat (map (\<lambda>l. l @ [10]) (file_lines f))"
    by (simp add: f write_results_concat)
qed

theorem output_records_well_formed_witness:
  "written (main (site (Some 0) [sitemap1, sitemap3]) [1] [0]) =
     Some (json_dump article_en article_cy news_en @ [10]) \<and>
   json_dump article_en article_cy news_en \<in>
     set (file_lines (json_dump article_en article_cy news_en @ [10])) \<and>
   json_loads_object (json_dump article_en article_cy news_en) =
     Some [(str ''en'', article_en), (str ''cy'', article_cy), (str ''url'', news_en)] \<and>
   filter (\<lambda>x. 128 \<le> x) (json_dump article_en article_cy news_en) = [226] \<and>
   (\<exists>en cy en_url cy_url en_articles cy_articles.
      json_dump article_en article_cy news_en = json_dump en cy en_url \<and>
      find_language_pair (site (Some 0) [sitemap1, sitemap3]) en_url = Inr (Some (en_url, cy_url)) \<and>
      scrape_page (site (Some 0) [sitemap1, sitemap3]) en_url = Inr en_articles \<and>
      scrape_page (site (Some 0) [sitemap1, sitemap3]) cy_url = Inr cy_articles \<and>
      (en, cy) \<in> set (zip en_articles cy_articles) \<and>
      quality_check latin1 (\<lambda>text. None) en cy = Inr True)"
proof -
  let ?w = "site (Some 0) [sitemap1, sitemap3]"
  let ?line = "json_dump article_en article_cy news_en"
  have check: "quality_check latin1 (\<lambda>text. None) article_en article_cy = Inr True"
    by (simp add: quality_check_def article_en_def article_cy_def text_eval)
  have pages: "enumerate_pages ?w = Inr [news_en, about_page, about_page, gone_page, broken_page]"
    by (simp add: site_eval str_def)
  have pairs: "collect_pairs ?w []
        (as_completed [1] [news_en, about_page, about_page, gone_page, broken_page]) =
      Inr [(news_en, news_cy)]"
    by (simp add: site_eval str_def)
  have unit: "process_url_pair ?w news_en news_cy = Inr [(article_en, article_cy, news_en)]"
    using check by (simp add: site_def news_en_def news_cy_def gone_page_def broken_page_def
        process_url_pair_def scrape_page_def scrape_page_try_def except_Exception_def
        get_announcement_articles_def str_def)
  have loop: "write_completed ?w [] (as_completed [0] [(news_en, news_cy)]) =
      (?line @ [10], None)"
    by (simp add: unit)
  have opened: "open_output ?w = None"
    by (simp add: site_def)
  have run: "written (main ?w [1] [0]) = Some (?line @ [10])"
    unfolding main_def
    by (simp only: pages pairs opened loop sum.case option.case prod.case run.select_convs)
  have no_lf: "10 \<notin> set ?line"
    using json_dump_no_line_end by blast
  have member: "?line \<in> set (file_lines (?line @ [10]))"
    using lines_acc_line [OF no_lf, of "[]" "[]"] by (simp add: file_lines_def)
  have reads: "json_loads_object ?line =
      Some [(str ''en'', article_en), (str ''cy'', article_cy), (str ''url'', news_en)]"
    by (rule json_loads_object_json_dump)
  have tables: "tables ?w = latin1" "detect ?w = (\<lambda>text. None)"
    by (simp_all add: site_def)
  note inst = output_records_well_formed [of ?w "[1]" "[0]" "?line @ [10]" ?line]
  from inst run member have "\<exists>en cy en_url cy_url en_articles cy_articles.
      ?line = json_dump en cy en_url \<and>
      find_language_pair ?w en_url = Inr (Some (en_url, cy_url)) \<and>
      scrape_page ?w en_url = Inr en_articles \<and>
      scrape_page ?w cy_url = Inr cy_articles \<and>
      (en, cy) \<in> set (zip en_articles cy_articles) \<and>
      quality_check latin1 (\<lambda>text. None) en cy = Inr True"
    unfolding tables by blast
  moreover have "filter (\<lambda>x. 128 \<le> x) ?line = [226]"
    by (simp add: json_dump_non_ascii) (simp add: article_en_def article_cy_def news_en_def str_def)
  ultimately show ?thesis
    using run member reads by blast
qed

end
